theory Spec2Isabelle
  imports Main "HOL-Library.AList"
begin

section \<open>String helpers of the host language\<close>

text \<open>\<open>Array.prototype.join\<close>: the elements separated by \<open>sep\<close>.\<close>

fun join :: "string \<Rightarrow> string list \<Rightarrow> string" where
  "join sep [] = []"
| "join sep [x] = x"
| "join sep (x # y # ys) = x @ sep @ join sep (y # ys)"

text \<open>\<open>String.prototype.startsWith\<close>, \<open>endsWith\<close> and \<open>includes\<close>
  (\<open>s.indexOf(p) !== -1\<close> is \<open>includes_str s p\<close>).\<close>

definition startsWith :: "string \<Rightarrow> string \<Rightarrow> bool" where
  "startsWith s p = (take (length p) s = p)"

definition endsWith :: "string \<Rightarrow> string \<Rightarrow> bool" where
  "endsWith s p = (length p \<le> length s \<and> drop (length s - length p) s = p)"

fun includes_str :: "string \<Rightarrow> string \<Rightarrow> bool" where
  "includes_str [] p = (p = [])"
| "includes_str (c # s) p = (startsWith (c # s) p \<or> includes_str s p)"

section \<open>Introspection: the index of types by name\<close>

text \<open>A type descriptor as \<open>getTypes\<close> returns it; only \<open>name\<close> is read here.\<close>

record Type =
  type_id :: string
  type_name :: string

text \<open>
  Lines 98 to 104 of \<open>generate.ts\<close>: the loop over \<open>types.values()\<close>. The assignment
  comes first; the test on \<open>"::"\<close> only \<open>continue\<close>s at the end of the body.
\<close>

fun typesByName_loop :: "Type list \<Rightarrow> (string \<rightharpoonup> Type) \<Rightarrow> (string \<rightharpoonup> Type)" where
  "typesByName_loop [] tbn = tbn"
| "typesByName_loop (ty # tys) tbn =
     (let tbn' = tbn(type_name ty \<mapsto> ty) in
      if \<not> includes_str (type_name ty) ''::'' then typesByName_loop tys tbn'
      else typesByName_loop tys tbn')"

definition typesByName :: "Type list \<Rightarrow> (string \<rightharpoonup> Type)" where
  "typesByName tys = typesByName_loop tys Map.empty"

section \<open>The module graph\<close>

text \<open>
  A \<open>CodeBuilder\<close> of \<open>./builders\<close>, as \<open>generateQB\<close> observes it after the generators
  have run: the results of \<open>isEmpty()\<close> and \<open>getDefaultExportKeys()\<close>.
\<close>

record codeBuilder =
  isEmpty :: bool
  getDefaultExportKeys :: "string list"

text \<open>
  The \<open>DirBuilder\<close>: \<open>_modules\<close> is the insertion-ordered map from module name to
  internal name, \<open>_map\<close> holds the builder of every path.
\<close>

record dirBuilder =
  d_modules :: "(string \<times> string) list"
  d_map :: "(string \<times> codeBuilder) list"

definition newBuilder :: codeBuilder where
  "newBuilder = \<lparr>isEmpty = True, getDefaultExportKeys = []\<rparr>"

text \<open>
  Modelled from the spec: \<open>DirBuilder.getPath\<close> and \<open>DirBuilder.getModule\<close> live in
  \<open>./builders\<close>. The spec's \<open>createOrGetModule(name)\<close> is idempotent and returns the
  existing module if already created; a module is never registered twice. The internal
  name of a new module is computed by \<open>mkIdent\<close> (a parameter) from the module name and
  the number of modules registered so far.
\<close>

definition getPath :: "string \<Rightarrow> dirBuilder \<Rightarrow> codeBuilder \<times> dirBuilder" where
  "getPath fn d =
     (case map_of (d_map d) fn of
        Some b \<Rightarrow> (b, d)
      | None \<Rightarrow> (newBuilder, d\<lparr>d_map := d_map d @ [(fn, newBuilder)]\<rparr>))"

definition getModule ::
  "(string \<Rightarrow> nat \<Rightarrow> string) \<Rightarrow> string \<Rightarrow> dirBuilder \<Rightarrow> codeBuilder \<times> dirBuilder" where
  "getModule mkIdent moduleName d =
     (case map_of (d_modules d) moduleName of
        Some internalName \<Rightarrow> getPath (''modules/'' @ internalName) d
      | None \<Rightarrow>
          (let internalName = mkIdent moduleName (length (d_modules d)) in
           getPath (''modules/'' @ internalName)
             (d\<lparr>d_modules := d_modules d @ [(moduleName, internalName)]\<rparr>)))"

section \<open>The surface merger\<close>

text \<open>An element of \<open>spreadModules\<close>: \<open>keys\<close> and \<open>module\<close> may be undefined.\<close>

record spreadModule =
  name :: string
  keys :: "string list option"
  module :: "codeBuilder option"

datatype error =
  FailedToConnect string
| IntrospectionFailed string
| GeneratorFailed string
| UndefinedModule
| NoDirectoryImports

text \<open>\<open>module?.isEmpty()\<close>: falsy when there is no module.\<close>

definition skipped :: "spreadModule \<Rightarrow> bool" where
  "skipped m = (case module m of None \<Rightarrow> False | Some b \<Rightarrow> isEmpty b)"

text \<open>\<open>keys ?? module!.getDefaultExportKeys()\<close>: a call on undefined throws.\<close>

definition resolveKeys :: "spreadModule \<Rightarrow> error + string list" where
  "resolveKeys m =
     (case keys m of
        Some ks \<Rightarrow> Inr ks
      | None \<Rightarrow> (case module m of
                   Some b \<Rightarrow> Inr (getDefaultExportKeys b)
                 | None \<Rightarrow> Inl UndefinedModule))"

definition typeStr :: "(string \<Rightarrow> string) \<Rightarrow> string \<Rightarrow> string list \<Rightarrow> string" where
  \<open>typeStr quote nm conflictingKeys =
     (if conflictingKeys \<noteq> []
      then ''Omit<typeof '' @ nm @ '', '' @ join '' | '' (map quote conflictingKeys) @ ''>''
      else ''typeof '' @ nm)\<close>

definition spreadType :: "(string \<Rightarrow> string) \<Rightarrow> string \<Rightarrow> string list \<Rightarrow> string" where
  \<open>spreadType quote nm conflictingKeys =
     (if nm = ''$syntax''
      then ''$.util.OmitDollarPrefixed<'' @ typeStr quote nm conflictingKeys @ ''>''
      else typeStr quote nm conflictingKeys)\<close>

text \<open>
  Lines 210 to 230: the loop over \<open>spreadModules\<close>, threading \<open>excludedKeys\<close> and
  \<open>spreadTypes\<close>. \<open>quote\<close> is \<open>genutil.quote\<close>, a parameter.
\<close>

fun spreadTypes_loop ::
  "(string \<Rightarrow> string) \<Rightarrow> spreadModule list \<Rightarrow> string set \<Rightarrow> string list
     \<Rightarrow> error + (string set \<times> string list)" where
  "spreadTypes_loop quote [] excludedKeys spreadTypes = Inr (excludedKeys, spreadTypes)"
| "spreadTypes_loop quote (m # ms) excludedKeys spreadTypes =
     (if skipped m then spreadTypes_loop quote ms excludedKeys spreadTypes
      else case resolveKeys m of
        Inl e \<Rightarrow> Inl e
      | Inr ks \<Rightarrow>
          (let conflictingKeys = filter (\<lambda>key. key \<in> excludedKeys) ks in
           spreadTypes_loop quote ms (excludedKeys \<union> set ks)
             (spreadTypes @ [spreadType quote (name m) conflictingKeys])))"

text \<open>Lines 249 to 258: the spreads of the runtime value, over the reversed copy.\<close>

definition spreadLine :: "string \<Rightarrow> string" where
  \<open>spreadLine nm =
     ''...'' @ (if nm = ''$syntax'' then ''$.util.omitDollarPrefixed($syntax)'' else nm) @ '',''\<close>

fun spreadValues_loop :: "spreadModule list \<Rightarrow> string list" where
  "spreadValues_loop [] = []"
| "spreadValues_loop (m # ms) =
     (if skipped m then spreadValues_loop ms
      else spreadLine (name m) # spreadValues_loop ms)"

definition spreadValues :: "spreadModule list \<Rightarrow> string list" where
  "spreadValues ms = spreadValues_loop (rev ms)"

text \<open>Lines 172 to 206: the four namespaces, two of them backed by a module.\<close>

definition syntaxKeys :: "string list" where
  "syntaxKeys =
     [''ASC'', ''DESC'', ''EMPTY_FIRST'', ''EMPTY_LAST'', ''alias'', ''array'', ''cast'',
      ''detached'', ''for'', ''insert'', ''is'', ''literal'', ''namedTuple'', ''optional'',
      ''select'', ''set'', ''tuple'', ''with'', ''withParams'']"

definition spreadModules ::
  "(string \<Rightarrow> nat \<Rightarrow> string) \<Rightarrow> dirBuilder \<Rightarrow> spreadModule list \<times> dirBuilder" where
  \<open>spreadModules mkIdent dir =
     (let (mDefault, dir1) = getModule mkIdent ''default'' dir;
          (mStd, dir2) = getModule mkIdent ''std'' dir1
      in ([\<lparr>name = ''$op'', keys = Some [''op''], module = None\<rparr>,
           \<lparr>name = ''$syntax'', keys = Some syntaxKeys, module = None\<rparr>,
           \<lparr>name = ''_default'', keys = None, module = Some mDefault\<rparr>,
           \<lparr>name = ''_std'', keys = None, module = Some mStd\<rparr>], dir2))\<close>

text \<open>
  The part of the index file that the merger writes (lines 207 to 258), for a given list
  of namespaces and a given seed of \<open>excludedKeys\<close>: \<open>spreadTypes.reverse()\<close>, its
  members joined into the type of \<open>ExportDefault\<close>, and the spreads of its value.
\<close>

record mergedSurface =
  mergedTypes :: "string list"
  mergedTypeLine :: string
  mergedValueLines :: "string list"

definition mergeSurface ::
  "(string \<Rightarrow> string) \<Rightarrow> spreadModule list \<Rightarrow> string set \<Rightarrow> error + mergedSurface" where
  \<open>mergeSurface quote sms excludedKeys =
     (case spreadTypes_loop quote sms excludedKeys [] of
        Inl e \<Rightarrow> Inl e
      | Inr (excludedKeys', spreadTypes) \<Rightarrow>
          Inr \<lparr>mergedTypes = rev spreadTypes,
               mergedTypeLine = '': '' @ join '' & \<newline>  '' (rev spreadTypes) @ '' & {'',
               mergedValueLines = spreadValues sms\<rparr>)\<close>

text \<open>Line 207: \<open>new Set(dir._modules.keys())\<close>, read after \<open>spreadModules\<close> is built.\<close>

definition initialExcludedKeys :: "(string \<Rightarrow> nat \<Rightarrow> string) \<Rightarrow> dirBuilder \<Rightarrow> string set" where
  "initialExcludedKeys mkIdent dir0 = set (map fst (d_modules (snd (spreadModules mkIdent dir0))))"

definition surfaceMerger ::
  "(string \<Rightarrow> string) \<Rightarrow> (string \<Rightarrow> nat \<Rightarrow> string) \<Rightarrow> dirBuilder \<Rightarrow> error + mergedSurface" where
  "surfaceMerger quote mkIdent dir0 =
     mergeSurface quote (fst (spreadModules mkIdent dir0)) (initialExcludedKeys mkIdent dir0)"

text \<open>
  Lines 238 to 245 and 260 to 271: after the merged types and after the spreads, one
  entry for every module of \<open>dir._modules\<close> that is not empty.
\<close>

definition nonEmptyModules :: "(string \<Rightarrow> nat \<Rightarrow> string) \<Rightarrow> dirBuilder \<Rightarrow> (string \<times> string) list" where
  "nonEmptyModules mkIdent dir =
     filter (\<lambda>(moduleName, internalName). \<not> isEmpty (fst (getModule mkIdent moduleName dir)))
       (d_modules dir)"

definition moduleTypeLines ::
  "(string \<Rightarrow> string) \<Rightarrow> (string \<Rightarrow> nat \<Rightarrow> string) \<Rightarrow> dirBuilder \<Rightarrow> string list" where
  "moduleTypeLines quote mkIdent dir =
     map (\<lambda>(moduleName, internalName). quote moduleName @ '': typeof _'' @ internalName @ '';'')
       (nonEmptyModules mkIdent dir)"

definition moduleValueLines ::
  "(string \<Rightarrow> string) \<Rightarrow> (string \<Rightarrow> nat \<Rightarrow> string) \<Rightarrow> dirBuilder \<Rightarrow> string list" where
  "moduleValueLines quote mkIdent dir =
     map (\<lambda>(moduleName, internalName). quote moduleName @ '': _'' @ internalName @ '','')
       (nonEmptyModules mkIdent dir)"

subsection \<open>Notions used to state the properties of the merger\<close>

text \<open>The keys of a namespace (none when their resolution throws).\<close>

definition keysOf :: "spreadModule \<Rightarrow> string list" where
  "keysOf m = (case resolveKeys m of Inr ks \<Rightarrow> ks | Inl e \<Rightarrow> [])"

definition nonSkipped :: "spreadModule list \<Rightarrow> spreadModule list" where
  "nonSkipped ms = filter (\<lambda>m. \<not> skipped m) ms"

text \<open>The keys claimed once the namespaces \<open>ns\<close> have been processed from the seed \<open>ex\<close>.\<close>

definition claimed :: "string set \<Rightarrow> spreadModule list \<Rightarrow> string set" where
  "claimed ex ns = ex \<union> \<Union> (set (map (\<lambda>m. set (keysOf m)) ns))"

definition conflicting :: "string set \<Rightarrow> spreadModule \<Rightarrow> string list" where
  "conflicting ex m = filter (\<lambda>key. key \<in> ex) (keysOf m)"

text \<open>The descriptions of the namespaces \<open>ns\<close>, in their order, from the seed \<open>ex\<close>.\<close>

fun descriptions :: "(string \<Rightarrow> string) \<Rightarrow> string set \<Rightarrow> spreadModule list \<Rightarrow> string list" where
  "descriptions quote ex [] = []"
| "descriptions quote ex (m # ns) =
     spreadType quote (name m) (conflicting ex m) # descriptions quote (ex \<union> set (keysOf m)) ns"

section \<open>The file system and the directory synchronizer\<close>

text \<open>
  The file system as \<open>generateQB\<close> uses it: the regular files with their contents, the
  directories, and the trace of the mutating calls made so far (oldest first). Failures
  of the operating system (a full disk, missing permissions) are outside the model.
\<close>

datatype fsOp = WriteFile string string | Mkdir string | Rm string

record fileSystem =
  files :: "(string \<times> string) list"
  dirs :: "string list"
  trace :: "fsOp list"

definition writeFile :: "string \<Rightarrow> string \<Rightarrow> fileSystem \<Rightarrow> fileSystem" where
  "writeFile p contents fs =
     fs\<lparr>files := AList.update p contents (files fs), trace := trace fs @ [WriteFile p contents]\<rparr>"

definition mkdir :: "string \<Rightarrow> fileSystem \<Rightarrow> fileSystem" where
  "mkdir p fs = fs\<lparr>dirs := dirs fs @ [p], trace := trace fs @ [Mkdir p]\<rparr>"

definition rm :: "string \<Rightarrow> fileSystem \<Rightarrow> fileSystem" where
  "rm p fs = fs\<lparr>files := AList.delete p (files fs), trace := trace fs @ [Rm p]\<rparr>"

text \<open>\<open>readFileUtf8\<close> inside \<open>try \<dots> catch {}\<close> with the default \<open>""\<close>.\<close>

definition readFileOrEmpty :: "string \<Rightarrow> fileSystem \<Rightarrow> string" where
  "readFileOrEmpty p fs = (case map_of (files fs) p of Some contents \<Rightarrow> contents | None \<Rightarrow> [])"

text \<open>
  Modelled from the spec: \<open>path.join\<close>, \<open>exists\<close> and \<open>walk\<close> come from
  \<open>../adapter.node\<close>. Paths are joined with a slash (no normalisation), a path exists
  when a file or a directory has it, and \<open>walk\<close> enumerates every existing file under
  the output directory.
\<close>

definition path_join :: "string \<Rightarrow> string \<Rightarrow> string" where
  "path_join a b = a @ ''/'' @ b"

definition exists_path :: "string \<Rightarrow> fileSystem \<Rightarrow> bool" where
  "exists_path p fs = (p \<in> set (dirs fs) \<or> p \<in> set (map fst (files fs)))"

definition walk :: "string \<Rightarrow> fileSystem \<Rightarrow> string list" where
  "walk dir fs = filter (\<lambda>p. startsWith p (dir @ ''/'')) (map fst (files fs))"

text \<open>\<open>new Set(xs)\<close>, iterated: the first occurrence of every member, in order.\<close>

definition js_set :: "'a list \<Rightarrow> 'a list" where
  "js_set xs = rev (remdups (rev xs))"

datatype target = Ts | Esm | Cjs | Mts | Deno

definition targetName :: "target \<Rightarrow> string" where
  "targetName t =
     (case t of Ts \<Rightarrow> ''ts'' | Esm \<Rightarrow> ''esm'' | Cjs \<Rightarrow> ''cjs'' | Mts \<Rightarrow> ''mts'' | Deno \<Rightarrow> ''deno'')"

record writeParams =
  mode :: string
  moduleKind :: string
  fileExtension :: string
  moduleExtension :: string

text \<open>
  One output file of either loop: its path joins \<open>written\<close>, the old contents are read,
  and the file is written only when they differ from the new ones.
\<close>

definition syncFile ::
  "string \<Rightarrow> string \<Rightarrow> fileSystem \<times> string set \<Rightarrow> fileSystem \<times> string set" where
  "syncFile dest newContents st =
     (let (fs, written) = st;
          oldContents = readFileOrEmpty dest fs
      in (if oldContents \<noteq> newContents then writeFile dest newContents fs else fs,
          insert dest written))"

text \<open>
  Modelled from the spec: \<open>DirBuilder.write\<close> lives in \<open>./builders\<close>. As each logical
  output file is rendered, its resolved path is added to \<open>written\<close>; the existing file
  at that path (if any) is read and compared with the newly rendered content, and written
  only on mismatch. The rendering itself is the parameter \<open>rendered\<close>: destination path
  and content of every file, for an output directory and the parameters of one pass.
\<close>

fun dirWrite_loop ::
  "(string \<times> string) list \<Rightarrow> fileSystem \<times> string set \<Rightarrow> fileSystem \<times> string set" where
  "dirWrite_loop [] st = st"
| "dirWrite_loop ((dest, newContents) # rest) st = dirWrite_loop rest (syncFile dest newContents st)"

definition dirWrite ::
  "(string \<Rightarrow> writeParams \<Rightarrow> (string \<times> string) list) \<Rightarrow> string \<Rightarrow> writeParams
     \<Rightarrow> fileSystem \<times> string set \<Rightarrow> fileSystem \<times> string set" where
  "dirWrite rendered outputDir ps st = dirWrite_loop (rendered outputDir ps) st"

text \<open>Lines 295 to 349: the passes of \<open>dir.write\<close> for each target.\<close>

definition writePasses :: "target \<Rightarrow> writeParams list" where
  "writePasses t =
     (case t of
        Ts \<Rightarrow> [\<lparr>mode = ''ts'', moduleKind = ''esm'', fileExtension = ''.ts'', moduleExtension = []\<rparr>]
      | Mts \<Rightarrow> [\<lparr>mode = ''ts'', moduleKind = ''esm'', fileExtension = ''.mts'',
                 moduleExtension = ''.mjs''\<rparr>]
      | Cjs \<Rightarrow> [\<lparr>mode = ''js'', moduleKind = ''cjs'', fileExtension = ''.js'', moduleExtension = []\<rparr>,
                \<lparr>mode = ''dts'', moduleKind = ''esm'', fileExtension = ''.d.ts'', moduleExtension = []\<rparr>]
      | Esm \<Rightarrow> [\<lparr>mode = ''js'', moduleKind = ''esm'', fileExtension = ''.mjs'',
                 moduleExtension = ''.mjs''\<rparr>,
                \<lparr>mode = ''dts'', moduleKind = ''esm'', fileExtension = ''.d.ts'', moduleExtension = []\<rparr>]
      | Deno \<Rightarrow> [\<lparr>mode = ''ts'', moduleKind = ''esm'', fileExtension = ''.ts'',
                  moduleExtension = ''.ts''\<rparr>])"

fun writeTarget ::
  "(string \<Rightarrow> writeParams \<Rightarrow> (string \<times> string) list) \<Rightarrow> string \<Rightarrow> writeParams list
     \<Rightarrow> fileSystem \<times> string set \<Rightarrow> fileSystem \<times> string set" where
  "writeTarget rendered outputDir [] st = st"
| "writeTarget rendered outputDir (ps # pss) st =
     writeTarget rendered outputDir pss (dirWrite rendered outputDir ps st)"

text \<open>Lines 359 to 378: the type of a syntax file and the filter of the target.\<close>

definition filetype :: "string \<Rightarrow> string option" where
  "filetype fileName =
     (if endsWith fileName ''.js'' then Some ''js''
      else if endsWith fileName ''.mjs'' then Some ''esm''
      else if endsWith fileName ''.mts'' then Some ''mts''
      else if endsWith fileName ''.d.ts'' then Some ''dts''
      else if endsWith fileName ''.ts'' then Some ''ts''
      else None)"

definition skipSyntaxFile :: "target \<Rightarrow> string option \<Rightarrow> bool" where
  "skipSyntaxFile t ft =
     ((t = Deno \<and> ft \<noteq> Some ''ts'') \<or>
      (t = Ts \<and> ft \<noteq> Some ''ts'') \<or>
      (t = Mts \<and> ft \<noteq> Some ''mts'') \<or>
      (t = Esm \<and> \<not> (ft = Some ''esm'' \<or> ft = Some ''dts'')) \<or>
      (t = Cjs \<and> \<not> (ft = Some ''js'' \<or> ft = Some ''dts'')))"

definition localExt :: "target \<Rightarrow> string" where
  "localExt t = (case t of Esm \<Rightarrow> ''.mjs'' | Mts \<Rightarrow> ''.mjs'' | Deno \<Rightarrow> [] | Cjs \<Rightarrow> [] | Ts \<Rightarrow> [])"

definition pkgExt :: "target \<Rightarrow> string" where
  "pkgExt t = (case t of Esm \<Rightarrow> ''.js'' | Mts \<Rightarrow> ''.js'' | Deno \<Rightarrow> [] | Cjs \<Rightarrow> [] | Ts \<Rightarrow> [])"

text \<open>
  The four regular-expression replacements of lines 423 to 442 are calls of
  \<open>String.prototype.replace\<close>; they are parameters: the reflection import for Deno, the
  reflection import with the package extension, the \<open>@generated\<close> import, and the local
  extension appended to relative imports.
\<close>

record regexReplace =
  replaceReflectionDeno :: "string \<Rightarrow> string"
  replaceReflection :: "string \<Rightarrow> string \<Rightarrow> string"
  replaceGenerated :: "string \<Rightarrow> string"
  appendLocalExt :: "string \<Rightarrow> string \<Rightarrow> string"

definition rewriteContents :: "regexReplace \<Rightarrow> target \<Rightarrow> string \<Rightarrow> string" where
  "rewriteContents rx t contents =
     (let contents1 =
            (if t = Deno then replaceGenerated rx (replaceReflectionDeno rx contents)
             else replaceGenerated rx (replaceReflection rx (pkgExt t) contents))
      in if localExt t \<noteq> [] then appendLocalExt rx (localExt t) contents1 else contents1)"

definition disallowedImport :: string where
  \<open>disallowedImport = ''"edgedb/dist/reflection"''\<close>

text \<open>
  Lines 358 to 474: the loop over the files of the package's \<open>syntax\<close> directory, each
  given with its contents. The \<open>throw\<close> leaves the loop with the state reached so far.
\<close>

fun syntaxLoop ::
  "regexReplace \<Rightarrow> target \<Rightarrow> string \<Rightarrow> (string \<times> string) list \<Rightarrow> fileSystem \<times> string set
     \<Rightarrow> error option \<times> fileSystem \<times> string set" where
  "syntaxLoop rx t syntaxOutDir [] st = (None, st)"
| "syntaxLoop rx t syntaxOutDir ((fileName, contents) # rest) st =
     (if skipSyntaxFile t (filetype fileName) then syntaxLoop rx t syntaxOutDir rest st
      else if includes_str contents disallowedImport then (Some NoDirectoryImports, st)
      else syntaxLoop rx t syntaxOutDir rest
             (syncFile (path_join syntaxOutDir fileName) (rewriteContents rx t contents) st))"

text \<open>Line 36 and lines 476 to 481: the metadata file.\<close>

definition configFileHeader :: string where
  \<open>configFileHeader = ''// EdgeDB query builder. To update, run `npx edgeql-js`''\<close>

text \<open>\<open>JSON.stringify({target})\<close>: one key, whose value is one of five plain literals.\<close>

definition stringifyTarget :: "target \<Rightarrow> string" where
  \<open>stringifyTarget t = ''{"target":"'' @ targetName t @ ''"}''\<close>

definition configContents :: "target \<Rightarrow> string" where
  \<open>configContents t = configFileHeader @ ''\<newline>'' @ stringifyTarget t @ ''\<newline>''\<close>

definition writeConfig ::
  "string \<Rightarrow> target \<Rightarrow> fileSystem \<times> string set \<Rightarrow> fileSystem \<times> string set" where
  "writeConfig outputDir t st =
     (let (fs, written) = st;
          configPath = path_join outputDir ''config.json''
      in (writeFile configPath (configContents t) fs, insert configPath written))"

text \<open>Lines 483 to 489: the vestigial files are removed.\<close>

fun deleteVestigial :: "string list \<Rightarrow> string set \<Rightarrow> fileSystem \<Rightarrow> fileSystem" where
  "deleteVestigial [] written fs = fs"
| "deleteVestigial (file # rest) written fs =
     (if file \<in> written then deleteVestigial rest written fs
      else deleteVestigial rest written (rm file fs))"

text \<open>
  Lines 292 to 355: the passes of \<open>dir.write\<close>, then the \<open>syntax\<close> directory is made
  when it does not exist.
\<close>

definition writeModules ::
  "(string \<Rightarrow> writeParams \<Rightarrow> (string \<times> string) list) \<Rightarrow> string \<Rightarrow> target \<Rightarrow> fileSystem
     \<Rightarrow> fileSystem \<times> string set" where
  "writeModules rendered outputDir t fs0 =
     (let st1 = writeTarget rendered outputDir (writePasses t) (fs0, {});
          syntaxOutDir = path_join outputDir ''syntax''
      in if \<not> exists_path syntaxOutDir (fst st1)
         then (mkdir syntaxOutDir (fst st1), snd st1) else st1)"

text \<open>
  Lines 292 to 481, up to the metadata file: the error thrown, if any, with the file
  system and \<open>written\<close> as they are at that point.
\<close>

definition writeOutput ::
  "(string \<Rightarrow> writeParams \<Rightarrow> (string \<times> string) list) \<Rightarrow> regexReplace \<Rightarrow> (string \<times> string) list
     \<Rightarrow> string \<Rightarrow> target \<Rightarrow> fileSystem \<Rightarrow> error option \<times> fileSystem \<times> string set" where
  "writeOutput rendered rx syntaxFiles outputDir t fs0 =
     (case syntaxLoop rx t (path_join outputDir ''syntax'') syntaxFiles
             (writeModules rendered outputDir t fs0) of
        (Some e, st3) \<Rightarrow> (Some e, st3)
      | (None, st3) \<Rightarrow> (None, writeConfig outputDir t st3))"

definition synchronize ::
  "(string \<Rightarrow> writeParams \<Rightarrow> (string \<times> string) list) \<Rightarrow> regexReplace \<Rightarrow> (string \<times> string) list
     \<Rightarrow> string \<Rightarrow> target \<Rightarrow> fileSystem \<Rightarrow> error option \<times> fileSystem" where
  "synchronize rendered rx syntaxFiles outputDir t fs0 =
     (let initialFiles = js_set (walk outputDir fs0)
      in case writeOutput rendered rx syntaxFiles outputDir t fs0 of
           (Some e, fs, written) \<Rightarrow> (Some e, fs)
         | (None, fs, written) \<Rightarrow> (None, deleteVestigial initialFiles written fs))"

subsection \<open>Notions used to state the properties of the synchronizer\<close>

fun isRm :: "fsOp \<Rightarrow> bool" where
  "isRm (Rm p) = True"
| "isRm (WriteFile p contents) = False"
| "isRm (Mkdir p) = False"

text \<open>From \<open>fs\<close> to \<open>fs'\<close> nothing was removed: the trace grew without \<open>Rm\<close>, no file is gone.\<close>

definition onlyWrites :: "fileSystem \<Rightarrow> fileSystem \<Rightarrow> bool" where
  "onlyWrites fs fs' \<longleftrightarrow>
     (\<exists>ops. trace fs' = trace fs @ ops \<and> list_all (\<lambda>op. \<not> isRm op) ops)
     \<and> set (map fst (files fs)) \<subseteq> set (map fst (files fs'))"

text \<open>The syntax files that the target selects, and what the loop copies for them.\<close>

definition selectedSyntax :: "target \<Rightarrow> (string \<times> string) list \<Rightarrow> (string \<times> string) list" where
  "selectedSyntax t sfs = filter (\<lambda>(fileName, contents). \<not> skipSyntaxFile t (filetype fileName)) sfs"

definition syntaxOutputs ::
  "regexReplace \<Rightarrow> target \<Rightarrow> string \<Rightarrow> (string \<times> string) list \<Rightarrow> (string \<times> string) list" where
  "syntaxOutputs rx t outputDir sfs =
     map (\<lambda>(fileName, contents).
            (path_join (path_join outputDir ''syntax'') fileName, rewriteContents rx t contents)) sfs"

text \<open>Everything the passes of \<open>dir.write\<close> render for a target.\<close>

definition renderedAll ::
  "(string \<Rightarrow> writeParams \<Rightarrow> (string \<times> string) list) \<Rightarrow> string \<Rightarrow> target \<Rightarrow> (string \<times> string) list" where
  "renderedAll rendered outputDir t = concat (map (rendered outputDir) (writePasses t))"

text \<open>The paths of all output files of a run: modules, syntax files, metadata.\<close>

definition outputPaths ::
  "(string \<Rightarrow> writeParams \<Rightarrow> (string \<times> string) list) \<Rightarrow> regexReplace \<Rightarrow> (string \<times> string) list
     \<Rightarrow> string \<Rightarrow> target \<Rightarrow> string list" where
  "outputPaths rendered rx sfs outputDir t =
     map fst (renderedAll rendered outputDir t) @
     map fst (syntaxOutputs rx t outputDir (selectedSyntax t sfs)) @
     [path_join outputDir ''config.json'']"

section \<open>The generation run\<close>

text \<open>
  What \<open>generateQB\<close> gets from its collaborators: the outcome of \<open>createClient\<close> (the
  message of the error it throws, if any), the outcome of the introspection queries (the
  types and the other catalogs, or the message of the error), the domain generators
  filling the module graph, \<open>genutil.quote\<close>, the naming of modules, the rendering of the
  module graph with the merged surface in its index file, the regular-expression
  replacements and the files of the package's \<open>syntax\<close> directory.
\<close>

record 'c collaborators =
  createClient :: "string option"
  introspect :: "string + (Type list \<times> 'c)"
  runGenerators :: "Type list \<times> 'c \<Rightarrow> (string \<rightharpoonup> Type) \<Rightarrow> string + dirBuilder"
  quote :: "string \<Rightarrow> string"
  makeValidIdent :: "string \<Rightarrow> nat \<Rightarrow> string"
  render :: "dirBuilder \<Rightarrow> mergedSurface \<Rightarrow> string \<Rightarrow> writeParams \<Rightarrow> (string \<times> string) list"
  regex :: regexReplace
  syntaxFiles :: "(string \<times> string) list"

record params =
  outputDir :: string
  target :: target

text \<open>
  Lines 62 to 287: the client, the introspection, the index of types, the generators and
  the merged surface; an error there ends the run before the output directory is read.
\<close>

definition generate :: "'c collaborators \<Rightarrow> error + (dirBuilder \<times> mergedSurface)" where
  "generate env =
     (case createClient env of
        Some msg \<Rightarrow> Inl (FailedToConnect (''Failed to connect: '' @ msg))
      | None \<Rightarrow>
         (case introspect env of
            Inl msg \<Rightarrow> Inl (IntrospectionFailed msg)
          | Inr catalogs \<Rightarrow>
             (case runGenerators env catalogs (typesByName (fst catalogs)) of
                Inl msg \<Rightarrow> Inl (GeneratorFailed msg)
              | Inr dir \<Rightarrow>
                 (case surfaceMerger (quote env) (makeValidIdent env) dir of
                    Inl e \<Rightarrow> Inl e
                  | Inr merged \<Rightarrow> Inr (snd (spreadModules (makeValidIdent env) dir), merged)))))"

definition generateQB :: "'c collaborators \<Rightarrow> params \<Rightarrow> fileSystem \<Rightarrow> error option \<times> fileSystem" where
  "generateQB env ps fs0 =
     (case generate env of
        Inl e \<Rightarrow> (Some e, fs0)
      | Inr (dir, merged) \<Rightarrow>
          synchronize (render env dir merged) (regex env) (syntaxFiles env) (outputDir ps) (target ps) fs0)"

section \<open>Concrete inputs\<close>

text \<open>A \<open>quote\<close> that wraps in double quotes, and modules named after themselves.\<close>

definition exampleQuote :: "string \<Rightarrow> string" where
  "exampleQuote s = CHR 0x22 # s @ [CHR 0x22]"

definition exampleIdent :: "string \<Rightarrow> nat \<Rightarrow> string" where
  "exampleIdent moduleName n = moduleName"

definition userBuilder :: "string list \<Rightarrow> codeBuilder" where
  "userBuilder ks = \<lparr>isEmpty = False, getDefaultExportKeys = ks\<rparr>"

definition opNs :: spreadModule where
  "opNs = \<lparr>name = ''$op'', keys = Some [''op''], module = None\<rparr>"

definition syntaxNs :: spreadModule where
  "syntaxNs = \<lparr>name = ''$syntax'', keys = Some syntaxKeys, module = None\<rparr>"

definition moduleNs :: "string \<Rightarrow> codeBuilder \<Rightarrow> spreadModule" where
  "moduleNs nm b = \<lparr>name = nm, keys = None, module = Some b\<rparr>"

text \<open>A schema with a module \<open>array\<close> and a type \<open>default::array\<close>.\<close>

definition dirArray :: dirBuilder where
  "dirArray =
     \<lparr>d_modules = [(''default'', ''default''), (''std'', ''std''), (''array'', ''array'')],
      d_map = [(''modules/default'', userBuilder [''array'']),
               (''modules/std'', userBuilder [''str'']),
               (''modules/array'', userBuilder [''Item''])]\<rparr>"

text \<open>A schema whose modules \<open>default\<close> and \<open>std\<close> both export \<open>str\<close>.\<close>

definition dirShared :: dirBuilder where
  "dirShared =
     \<lparr>d_modules = [(''default'', ''default''), (''std'', ''std'')],
      d_map = [(''modules/default'', userBuilder [''str'']),
               (''modules/std'', userBuilder [''str''])]\<rparr>"

text \<open>A schema with a module \<open>op\<close>.\<close>

definition dirOp :: dirBuilder where
  "dirOp =
     \<lparr>d_modules = [(''default'', ''default''), (''std'', ''std''), (''op'', ''op'')],
      d_map = [(''modules/default'', userBuilder [''User'']),
               (''modules/std'', userBuilder [''str'']),
               (''modules/op'', userBuilder [''Item''])]\<rparr>"

text \<open>A schema with one type \<open>default::User\<close>, and one whose \<open>default\<close> module is empty.\<close>

definition dirUser :: dirBuilder where
  "dirUser =
     \<lparr>d_modules = [(''default'', ''default''), (''std'', ''std'')],
      d_map = [(''modules/default'', userBuilder [''User'']),
               (''modules/std'', userBuilder [''str''])]\<rparr>"

definition dirNoDefault :: dirBuilder where
  "dirNoDefault =
     \<lparr>d_modules = [(''std'', ''std'')],
      d_map = [(''modules/std'', userBuilder [''str''])]\<rparr>"

text \<open>Two introspected types, one of them the placeholder \<open>anytype\<close>.\<close>

definition anytypeT :: Type where
  "anytypeT = \<lparr>type_id = ''00000000-0000-0000-0000-000000000001'', type_name = ''anytype''\<rparr>"

definition strT :: Type where
  "strT = \<lparr>type_id = ''00000000-0000-0000-0000-000000000101'', type_name = ''std::str''\<rparr>"

text \<open>The merged surfaces of three of these schemas.\<close>

definition sharedSurface :: mergedSurface where
  \<open>sharedSurface =
     \<lparr>mergedTypes = [''Omit<typeof _std, "str">'', ''typeof _default'',
                     ''$.util.OmitDollarPrefixed<typeof $syntax>'', ''typeof $op''],
      mergedTypeLine = '': Omit<typeof _std, "str"> & \<newline>  typeof _default & \<newline>  $.util.OmitDollarPrefixed<typeof $syntax> & \<newline>  typeof $op & {'',
      mergedValueLines = [''..._std,'', ''..._default,'',
                          ''...$.util.omitDollarPrefixed($syntax),'', ''...$op,'']\<rparr>\<close>

definition userSurface :: mergedSurface where
  \<open>userSurface =
     \<lparr>mergedTypes = [''typeof _std'', ''typeof _default'',
                     ''$.util.OmitDollarPrefixed<typeof $syntax>'', ''typeof $op''],
      mergedTypeLine = '': typeof _std & \<newline>  typeof _default & \<newline>  $.util.OmitDollarPrefixed<typeof $syntax> & \<newline>  typeof $op & {'',
      mergedValueLines = [''..._std,'', ''..._default,'',
                          ''...$.util.omitDollarPrefixed($syntax),'', ''...$op,'']\<rparr>\<close>

definition noDefaultSurface :: mergedSurface where
  \<open>noDefaultSurface =
     \<lparr>mergedTypes = [''typeof _std'', ''$.util.OmitDollarPrefixed<typeof $syntax>'', ''typeof $op''],
      mergedTypeLine = '': typeof _std & \<newline>  $.util.OmitDollarPrefixed<typeof $syntax> & \<newline>  typeof $op & {'',
      mergedValueLines = [''..._std,'', ''...$.util.omitDollarPrefixed($syntax),'', ''...$op,'']\<rparr>\<close>

text \<open>
  A run for the target \<open>ts\<close> into the directory \<open>qb\<close>: replacements that change nothing,
  a rendering with the index file only, one syntax file for the target and one that the
  target does not select.
\<close>

definition exampleRegex :: regexReplace where
  "exampleRegex =
     \<lparr>replaceReflectionDeno = (\<lambda>contents. contents),
      replaceReflection = (\<lambda>ext contents. contents),
      replaceGenerated = (\<lambda>contents. contents),
      appendLocalExt = (\<lambda>ext contents. contents)\<rparr>"

definition exampleRender ::
  "dirBuilder \<Rightarrow> mergedSurface \<Rightarrow> string \<Rightarrow> writeParams \<Rightarrow> (string \<times> string) list" where
  "exampleRender d merged dir ps =
     [(path_join dir (''index'' @ fileExtension ps), concat (mergedValueLines merged))]"

definition goodSyntax :: "(string \<times> string) list" where
  \<open>goodSyntax = [(''select.ts'', ''export const ASC = "ASC";''), (''select.js'', ''exports.ASC = "ASC";'')]\<close>

definition badSyntax :: "(string \<times> string) list" where
  \<open>badSyntax = goodSyntax @ [(''path.ts'', ''import {$} from "edgedb/dist/reflection";'')]\<close>

definition unselectedSyntax :: "(string \<times> string) list" where
  \<open>unselectedSyntax = goodSyntax @ [(''path.mjs'', ''import {$} from "edgedb/dist/reflection";'')]\<close>

definition exampleEnv :: "(string \<times> string) list \<Rightarrow> unit collaborators" where
  "exampleEnv sfs =
     \<lparr>createClient = None,
      introspect = Inr ([strT], ()),
      runGenerators = (\<lambda>catalogs tbn. Inr dirUser),
      quote = exampleQuote,
      makeValidIdent = exampleIdent,
      render = exampleRender,
      regex = exampleRegex,
      syntaxFiles = sfs\<rparr>"

definition brokenEnv :: "unit collaborators" where
  "brokenEnv = (exampleEnv goodSyntax)\<lparr>introspect := Inl ''connection lost''\<rparr>"

definition qbTs :: params where
  "qbTs = \<lparr>outputDir = ''qb'', target = Ts\<rparr>"

definition indexContents :: string where
  \<open>indexContents = ''..._std,..._default,...$.util.omitDollarPrefixed($syntax),...$op,''\<close>

text \<open>A directory with a file of an earlier run, and a file outside of it.\<close>

definition fsStale :: fileSystem where
  "fsStale =
     \<lparr>files = [(''qb/old.ts'', ''export {};''), (''README.md'', ''notes'')],
      dirs = [''qb''], trace = []\<rparr>"

definition fsAfter :: fileSystem where
  \<open>fsAfter =
     \<lparr>files = [(''README.md'', ''notes''),
               (''qb/index.ts'', indexContents),
               (''qb/syntax/select.ts'', ''export const ASC = "ASC";''),
               (''qb/config.json'', configContents Ts)],
      dirs = [''qb'', ''qb/syntax''],
      trace = [WriteFile ''qb/index.ts'' indexContents,
               Mkdir ''qb/syntax'',
               WriteFile ''qb/syntax/select.ts'' ''export const ASC = "ASC";'',
               WriteFile ''qb/config.json'' (configContents Ts),
               Rm ''qb/old.ts'']\<rparr>\<close>

definition fsHalted :: fileSystem where
  \<open>fsHalted =
     \<lparr>files = [(''qb/old.ts'', ''export {};''), (''README.md'', ''notes''),
               (''qb/index.ts'', indexContents),
               (''qb/syntax/select.ts'', ''export const ASC = "ASC";'')],
      dirs = [''qb'', ''qb/syntax''],
      trace = [WriteFile ''qb/index.ts'' indexContents,
               Mkdir ''qb/syntax'',
               WriteFile ''qb/syntax/select.ts'' ''export const ASC = "ASC";'']\<rparr>\<close>

text \<open>The same run for the target \<open>esm\<close>: two passes, and no syntax file of these is selected.\<close>

definition qbEsm :: params where
  "qbEsm = \<lparr>outputDir = ''qb'', target = Esm\<rparr>"

definition fsAfterEsm :: fileSystem where
  \<open>fsAfterEsm =
     \<lparr>files = [(''README.md'', ''notes''),
               (''qb/index.mjs'', indexContents),
               (''qb/index.d.ts'', indexContents),
               (''qb/config.json'', configContents Esm)],
      dirs = [''qb'', ''qb/syntax''],
      trace = [WriteFile ''qb/index.mjs'' indexContents,
               WriteFile ''qb/index.d.ts'' indexContents,
               Mkdir ''qb/syntax'',
               WriteFile ''qb/config.json'' (configContents Esm),
               Rm ''qb/old.ts'']\<rparr>\<close>


section \<open>Properties of the surface merger\<close>

lemma claimed_Nil [simp]: "claimed ex [] = ex"
  by (simp add: claimed_def)
lemma claimed_Cons: "claimed ex (m # ns) = claimed (ex \<union> set (keysOf m)) ns"
  by (auto simp: claimed_def)
lemma claimed_snoc: "claimed ex (ns @ [m]) = claimed ex ns \<union> set (keysOf m)"
  by (auto simp: claimed_def)

lemma spreadTypes_loop_char:
  "spreadTypes_loop q ms ex acc = Inr (ex', ts) \<Longrightarrow>
     ex' = claimed ex (nonSkipped ms) \<and> ts = acc @ descriptions q ex (nonSkipped ms)"
proof (induction ms arbitrary: ex acc)
  case Nil
  then show ?case by (simp add: nonSkipped_def)
next
  case (Cons m ms)
  show ?case
  proof (cases "skipped m")
    case True
    with Cons show ?thesis by (simp add: nonSkipped_def)
  next
    case False
    with Cons.prems obtain ks where ks: "resolveKeys m = Inr ks"
      by (auto split: sum.splits)
    then have ko: "keysOf m = ks" by (simp add: keysOf_def)
    from Cons.prems False ks
    have "spreadTypes_loop q ms (ex \<union> set ks)
            (acc @ [spreadType q (name m) (filter (\<lambda>key. key \<in> ex) ks)]) = Inr (ex', ts)"
      by simp
    from Cons.IH [OF this] False ko show ?thesis
      by (simp add: nonSkipped_def claimed_Cons conflicting_def)
  qed
qed

lemma descriptions_length [simp]: "length (descriptions q ex ns) = length ns"
  by (induction ns arbitrary: ex) auto

lemma descriptions_nth:
  "j < length ns \<Longrightarrow>
     descriptions q ex ns ! j =
       spreadType q (name (ns ! j)) (conflicting (claimed ex (take j ns)) (ns ! j))"
proof (induction ns arbitrary: ex j)
  case Nil
  then show ?case by simp
next
  case (Cons m ns)
  then show ?case by (cases j) (auto simp: claimed_Cons)
qed

lemma spreadValues_loop_char: "spreadValues_loop ms = map (\<lambda>m. spreadLine (name m)) (nonSkipped ms)"
  by (induction ms) (auto simp: nonSkipped_def)

lemma nonSkipped_rev: "nonSkipped (rev ms) = rev (nonSkipped ms)"
  by (simp add: nonSkipped_def rev_filter)

lemma spreadValues_char: "spreadValues ms = map (\<lambda>m. spreadLine (name m)) (rev (nonSkipped ms))"
  by (simp add: spreadValues_def spreadValues_loop_char nonSkipped_rev)

lemma mergeSurface_char:
  assumes "mergeSurface q ms ex = Inr s"
  shows "mergedTypes s = rev (descriptions q ex (nonSkipped ms))"
    and "mergedValueLines s = map (\<lambda>m. spreadLine (name m)) (rev (nonSkipped ms))"
    and "mergedTypeLine s = '': '' @ join '' & \<newline>  '' (mergedTypes s) @ '' & {''"
proof -
  from assms obtain ex' ts where l: "spreadTypes_loop q ms ex [] = Inr (ex', ts)"
    and s: "s = \<lparr>mergedTypes = rev ts,
               mergedTypeLine = '': '' @ join '' & \<newline>  '' (rev ts) @ '' & {'',
               mergedValueLines = spreadValues ms\<rparr>"
    by (auto simp: mergeSurface_def split: sum.splits)
  from spreadTypes_loop_char [OF l] have "ts = descriptions q ex (nonSkipped ms)" by simp
  with s show "mergedTypes s = rev (descriptions q ex (nonSkipped ms))"
    and "mergedValueLines s = map (\<lambda>m. spreadLine (name m)) (rev (nonSkipped ms))"
    and "mergedTypeLine s = '': '' @ join '' & \<newline>  '' (mergedTypes s) @ '' & {''"
    by (simp_all add: spreadValues_char)
qed

lemma spreadModules_eq:
  "fst (spreadModules mk d) =
     [\<lparr>name = ''$op'', keys = Some [''op''], module = None\<rparr>,
      \<lparr>name = ''$syntax'', keys = Some syntaxKeys, module = None\<rparr>,
      \<lparr>name = ''_default'', keys = None, module = Some (fst (getModule mk ''default'' d))\<rparr>,
      \<lparr>name = ''_std'', keys = None,
       module = Some (fst (getModule mk ''std'' (snd (getModule mk ''default'' d))))\<rparr>]"
  by (simp add: spreadModules_def split: prod.splits)

lemma getPath_modules [simp]: "d_modules (snd (getPath fn d)) = d_modules d"
  by (simp add: getPath_def split: option.splits)

lemma getModule_names:
  "set (map fst (d_modules (snd (getModule mk n d)))) = insert n (set (map fst (d_modules d)))"
  by (auto simp: getModule_def Let_def map_of_eq_None_iff split: option.splits dest: map_of_SomeD
      intro: rev_image_eqI)

lemma spreadModules_dir:
  "snd (spreadModules mk d) = snd (getModule mk ''std'' (snd (getModule mk ''default'' d)))"
  by (simp add: spreadModules_def split: prod.splits)

lemma initialExcludedKeys_eq:
  "initialExcludedKeys mk d = insert ''default'' (insert ''std'' (set (map fst (d_modules d))))"
  unfolding initialExcludedKeys_def spreadModules_dir getModule_names by auto

lemma nonSkipped_append: "nonSkipped (xs @ ys) = nonSkipped xs @ nonSkipped ys"
  by (simp add: nonSkipped_def)

lemma nonSkipped_Cons_keep: "\<not> skipped m \<Longrightarrow> nonSkipped (m # ms) = m # nonSkipped ms"
  by (simp add: nonSkipped_def)

lemma nonSkipped_Cons_skip: "skipped m \<Longrightarrow> nonSkipped (m # ms) = nonSkipped ms"
  by (simp add: nonSkipped_def)

lemma conflicting_iff: "key \<in> set (conflicting ex m) \<longleftrightarrow> key \<in> ex \<and> key \<in> set (keysOf m)"
  by (auto simp: conflicting_def)

lemma typeStr_Omit:
  \<open>cs \<noteq> [] \<Longrightarrow>
     typeStr q nm cs = ''Omit<typeof '' @ nm @ '', '' @ join '' | '' (map q cs) @ ''>''\<close>
  by (simp add: typeStr_def)

lemma spreadTypes_loop_skip:
  "skipped m \<Longrightarrow>
     spreadTypes_loop q (pre @ m # post) ex acc = spreadTypes_loop q (pre @ post) ex acc"
  by (induction pre arbitrary: ex acc) (auto split: sum.splits)

lemma spreadTypes_loop_total:
  "list_all (\<lambda>m. keys m \<noteq> None \<or> module m \<noteq> None) ms \<Longrightarrow>
     \<exists>r. spreadTypes_loop q ms ex acc = Inr r"
  by (induction ms arbitrary: ex acc)
     (auto simp: resolveKeys_def split: option.splits sum.splits)

lemma mergeSurface_total:
  assumes "list_all (\<lambda>m. keys m \<noteq> None \<or> module m \<noteq> None) ms"
  shows "\<exists>s. mergeSurface q ms ex = Inr s"
proof -
  from spreadTypes_loop_total [OF assms] obtain r where "spreadTypes_loop q ms ex [] = Inr r"
    by blast
  then show ?thesis by (cases r) (simp add: mergeSurface_def)
qed

lemma surfaceMerger_total: "\<exists>s. surfaceMerger q mk d = Inr s"
  unfolding surfaceMerger_def spreadModules_eq
  by (rule mergeSurface_total) simp

text \<open>
  Claim C6. A namespace whose module is empty can be removed from the list without any
  change: the loop returns the same claimed keys and the same descriptions, the runtime
  value has the same spreads, and the merged surface is the same.
\<close>

theorem empty_module_skipped:
  assumes "module m = Some b" and "isEmpty b"
  shows "spreadTypes_loop q (pre @ m # post) ex acc = spreadTypes_loop q (pre @ post) ex acc
       \<and> spreadValues (pre @ m # post) = spreadValues (pre @ post)
       \<and> mergeSurface q (pre @ m # post) ex = mergeSurface q (pre @ post) ex"
proof -
  from assms have sk: "skipped m" by (simp add: skipped_def)
  then have l: "spreadTypes_loop q (pre @ m # post) ex acc = spreadTypes_loop q (pre @ post) ex acc"
    for acc by (rule spreadTypes_loop_skip)
  from sk have v: "spreadValues (pre @ m # post) = spreadValues (pre @ post)"
    by (simp add: spreadValues_char nonSkipped_append nonSkipped_Cons_skip)
  show ?thesis unfolding mergeSurface_def l v by simp
qed

text \<open>
  Claim C7. The merged types and the spreads of the merged value both enumerate the
  namespaces that are not skipped from the last declared to the first: the member for
  the index \<open>i\<close> of the declaration order stands at the mirrored position, the type being
  the description of that namespace against the keys claimed before it.
\<close>

theorem merged_in_reverse_order:
  assumes "mergeSurface q ms ex = Inr s"
  shows "mergedTypes s =
           map (\<lambda>i. spreadType q (name (nonSkipped ms ! i))
                      (conflicting (claimed ex (take i (nonSkipped ms))) (nonSkipped ms ! i)))
               (rev [0..<length (nonSkipped ms)])
       \<and> mergedValueLines s =
           map (\<lambda>i. spreadLine (name (nonSkipped ms ! i))) (rev [0..<length (nonSkipped ms)])"
proof -
  let ?ns = "nonSkipped ms"
  have "descriptions q ex ?ns = map (\<lambda>i. descriptions q ex ?ns ! i) [0..<length ?ns]"
    by (metis descriptions_length map_nth)
  also have "\<dots> = map (\<lambda>i. spreadType q (name (?ns ! i))
                      (conflicting (claimed ex (take i ?ns)) (?ns ! i))) [0..<length ?ns]"
    by (rule map_cong) (simp_all add: descriptions_nth)
  finally have t: "rev (descriptions q ex ?ns) =
      map (\<lambda>i. spreadType q (name (?ns ! i)) (conflicting (claimed ex (take i ?ns)) (?ns ! i)))
        (rev [0..<length ?ns])"
    by (simp add: rev_map)
  have "map (\<lambda>m. spreadLine (name m)) ?ns = map (\<lambda>i. spreadLine (name (?ns ! i))) [0..<length ?ns]"
    by (rule nth_equalityI) simp_all
  then have "rev (map (\<lambda>m. spreadLine (name m)) ?ns) =
      rev (map (\<lambda>i. spreadLine (name (?ns ! i))) [0..<length ?ns])"
    by (rule arg_cong)
  then have v: "map (\<lambda>m. spreadLine (name m)) (rev ?ns) =
      map (\<lambda>i. spreadLine (name (?ns ! i))) (rev [0..<length ?ns])"
    by (simp only: rev_map)
  from mergeSurface_char(1,2) [OF assms] t v show ?thesis by simp
qed

lemma rev_nth_at: "i + Suc j = length xs \<Longrightarrow> rev xs ! i = xs ! j"
proof -
  assume a: "i + Suc j = length xs"
  then have "i < length xs" and "length xs - Suc i = j" by arith+
  then show ?thesis by (simp add: rev_nth)
qed

text \<open>
  Claim C1, as the code has it. Let \<open>A\<close> be declared before \<open>B\<close>, neither skipped, both
  exporting the key \<open>k\<close>. Then \<open>k\<close> is among the conflicting keys of \<open>B\<close>, the merged type
  of \<open>B\<close> is the \<open>Omit\<close> of exactly these keys (wrapped once more for \<open>$syntax\<close>), and in
  the runtime value the spread of \<open>A\<close> comes after the spread of \<open>B\<close>. The description of
  \<open>A\<close> itself keeps \<open>k\<close> exactly when \<open>k\<close> was not claimed before \<open>A\<close>: neither in the seed
  of \<open>excludedKeys\<close> nor by a namespace processed earlier.
\<close>

theorem merge_precedence:
  assumes "mergeSurface q (pre @ A # mid @ B # post) ex = Inr s"
    and "\<not> skipped A" and "\<not> skipped B"
    and "k \<in> set (keysOf A)" and "k \<in> set (keysOf B)"
  shows \<open>k \<in> set (conflicting (claimed ex (nonSkipped (pre @ A # mid))) B)
     \<and> mergedTypes s ! length (nonSkipped post) =
         (let omit = ''Omit<typeof '' @ name B @ '', '' @
                     join '' | '' (map q (conflicting (claimed ex (nonSkipped (pre @ A # mid))) B)) @ ''>''
          in if name B = ''$syntax'' then ''$.util.OmitDollarPrefixed<'' @ omit @ ''>'' else omit)
     \<and> mergedValueLines s ! length (nonSkipped post) = spreadLine (name B)
     \<and> mergedValueLines s ! Suc (length (nonSkipped post) + length (nonSkipped mid)) = spreadLine (name A)
     \<and> Suc (length (nonSkipped post) + length (nonSkipped mid)) < length (mergedValueLines s)
     \<and> mergedTypes s ! Suc (length (nonSkipped post) + length (nonSkipped mid)) =
         spreadType q (name A) (conflicting (claimed ex (nonSkipped pre)) A)
     \<and> (k \<in> set (conflicting (claimed ex (nonSkipped pre)) A) \<longleftrightarrow> k \<in> claimed ex (nonSkipped pre))\<close>
proof -
  let ?p = "nonSkipped pre" and ?m = "nonSkipped mid" and ?t = "nonSkipped post"
  let ?ns = "?p @ A # ?m @ B # ?t"
  let ?cB = "conflicting (claimed ex (nonSkipped (pre @ A # mid))) B"
  have ns: "nonSkipped (pre @ A # mid @ B # post) = ?ns"
    using assms(2,3) by (simp add: nonSkipped_append nonSkipped_Cons_keep)
  have pam: "nonSkipped (pre @ A # mid) = ?p @ A # ?m"
    using assms(2) by (simp add: nonSkipped_append nonSkipped_Cons_keep)
  have len: "length ?ns = Suc (Suc (length ?p + length ?m + length ?t))" by simp
  have tys: "mergedTypes s = rev (descriptions q ex ?ns)"
    and vals: "mergedValueLines s = map (\<lambda>m. spreadLine (name m)) (rev ?ns)"
    using mergeSurface_char(1,2) [OF assms(1)] ns by simp_all
  have nthB: "?ns ! Suc (length ?p + length ?m) = B"
    by (simp add: nth_append nth_Cons')
  have nthA: "?ns ! length ?p = A" by simp
  have takeB: "take (Suc (length ?p + length ?m)) ?ns = ?p @ A # ?m" by simp
  have takeA: "take (length ?p) ?ns = ?p" by simp
  have kB: "k \<in> set ?cB"
    using assms(4,5) by (auto simp: conflicting_iff pam claimed_def)
  then have neB: "?cB \<noteq> []" by auto
  have "mergedTypes s ! length ?t = descriptions q ex ?ns ! Suc (length ?p + length ?m)"
    unfolding tys by (rule rev_nth_at) simp
  also have "\<dots> = spreadType q (name B) ?cB"
  proof -
    have "Suc (length ?p + length ?m) < length ?ns" by simp
    from descriptions_nth [OF this, of q ex] show ?thesis
      by (simp only: takeB nthB pam)
  qed
  finally have tB: "mergedTypes s ! length ?t = spreadType q (name B) ?cB" .
  have "mergedTypes s ! Suc (length ?t + length ?m) = descriptions q ex ?ns ! length ?p"
    unfolding tys by (rule rev_nth_at) simp
  also have "\<dots> = spreadType q (name A) (conflicting (claimed ex ?p) A)"
  proof -
    have "length ?p < length ?ns" by simp
    from descriptions_nth [OF this, of q ex] show ?thesis
      by (simp only: takeA nthA)
  qed
  finally have tA: "mergedTypes s ! Suc (length ?t + length ?m) =
      spreadType q (name A) (conflicting (claimed ex ?p) A)" .
  have vB: "mergedValueLines s ! length ?t = spreadLine (name B)"
    unfolding vals by (simp add: nth_append)
  have vA: "mergedValueLines s ! Suc (length ?t + length ?m) = spreadLine (name A)"
    unfolding vals by (simp add: nth_append nth_Cons')
  have lv: "Suc (length ?t + length ?m) < length (mergedValueLines s)"
    unfolding vals by simp
  have kA: "k \<in> set (conflicting (claimed ex ?p) A) \<longleftrightarrow> k \<in> claimed ex ?p"
    using assms(4) by (simp add: conflicting_iff)
  from kB tB vB vA lv tA kA neB show ?thesis
    by (simp add: spreadType_def typeStr_Omit Let_def)
qed

text \<open>
  Claim C2, as the code has it. The set \<open>excludedKeys\<close> starts with the names of all
  registered modules, \<open>default\<close> and \<open>std\<close> among them. The description of the first
  namespace that is not skipped omits exactly those of its keys that are in this seed; it
  is the plain \<open>typeof\<close> form exactly when none of its keys is.
\<close>

theorem first_namespace_seed:
  assumes "mergeSurface q ms ex = Inr s" and "nonSkipped ms = m # rest"
  shows \<open>initialExcludedKeys mk dir = insert ''default'' (insert ''std'' (set (map fst (d_modules dir))))
     \<and> last (mergedTypes s) = spreadType q (name m) (filter (\<lambda>key. key \<in> ex) (keysOf m))
     \<and> (typeStr q (name m) (filter (\<lambda>key. key \<in> ex) (keysOf m)) = ''typeof '' @ name m
          \<longleftrightarrow> set (keysOf m) \<inter> ex = {})\<close>
proof -
  have "mergedTypes s = rev (descriptions q ex (m # rest))"
    using mergeSurface_char(1) [OF assms(1)] assms(2) by simp
  then have l: "last (mergedTypes s) = spreadType q (name m) (filter (\<lambda>key. key \<in> ex) (keysOf m))"
    by (simp add: conflicting_def)
  have "filter (\<lambda>key. key \<in> ex) (keysOf m) = [] \<longleftrightarrow> set (keysOf m) \<inter> ex = {}"
    by (auto simp: filter_empty_conv)
  then have t: "typeStr q (name m) (filter (\<lambda>key. key \<in> ex) (keysOf m)) = ''typeof '' @ name m
          \<longleftrightarrow> set (keysOf m) \<inter> ex = {}"
    by (simp add: typeStr_def)
  from l t initialExcludedKeys_eq show ?thesis by simp
qed

lemma descriptions_append:
  "descriptions q ex (xs @ ys) = descriptions q ex xs @ descriptions q (claimed ex xs) ys"
  by (induction xs arbitrary: ex) (simp_all add: claimed_Cons)

text \<open>
  What the merger emits for the four namespaces of a run: the type of \<open>$syntax\<close> inside
  \<open>$.util.OmitDollarPrefixed\<close> and its value inside \<open>$.util.omitDollarPrefixed\<close>, the
  other namespaces by their names. What these two helpers of the runtime library do with
  the keys of \<open>$syntax\<close> is not part of \<open>generate.ts\<close>.
\<close>

lemma syntax_wrappers_emitted:
  \<open>\<exists>s tStd tDefault vStd vDefault cSyn cOp.
     surfaceMerger q mk dir = Inr s
   \<and> mergedTypes s = tStd @ tDefault @
       [''$.util.OmitDollarPrefixed<'' @ typeStr q ''$syntax'' cSyn @ ''>'', typeStr q ''$op'' cOp]
   \<and> mergedValueLines s = vStd @ vDefault @ [''...$.util.omitDollarPrefixed($syntax),'', ''...$op,'']
   \<and> (vStd = [] \<or> vStd = [''..._std,'']) \<and> (vDefault = [] \<or> vDefault = [''..._default,''])
   \<and> (tStd = [] \<or> (\<exists>c. tStd = [typeStr q ''_std'' c]))
   \<and> (tDefault = [] \<or> (\<exists>c. tDefault = [typeStr q ''_default'' c]))\<close>
proof -
  obtain s where s: "surfaceMerger q mk dir = Inr s" using surfaceMerger_total by blast
  define ex where "ex = initialExcludedKeys mk dir"
  define opNs where "opNs = \<lparr>name = ''$op'', keys = Some [''op''], module = None\<rparr>"
  define synNs where "synNs = \<lparr>name = ''$syntax'', keys = Some syntaxKeys, module = None\<rparr>"
  define defNs where
    "defNs = \<lparr>name = ''_default'', keys = None, module = Some (fst (getModule mk ''default'' dir))\<rparr>"
  define stdNs where
    "stdNs = \<lparr>name = ''_std'', keys = None,
       module = Some (fst (getModule mk ''std'' (snd (getModule mk ''default'' dir))))\<rparr>"
  define nd where "nd = nonSkipped [defNs]"
  define nt where "nt = nonSkipped [stdNs]"
  define ex2 where "ex2 = claimed ex [opNs, synNs]"
  define tD where "tD = descriptions q ex2 nd"
  define tS where "tS = descriptions q (claimed ex2 nd) nt"
  define vD where "vD = map (\<lambda>m. spreadLine (name m)) nd"
  define vS where "vS = map (\<lambda>m. spreadLine (name m)) nt"
  from s have ms: "mergeSurface q [opNs, synNs, defNs, stdNs] ex = Inr s"
    by (simp add: surfaceMerger_def spreadModules_eq ex_def opNs_def synNs_def defNs_def stdNs_def)
  have ns: "nonSkipped [opNs, synNs, defNs, stdNs] = [opNs, synNs] @ nd @ nt"
    by (simp add: nonSkipped_def skipped_def opNs_def synNs_def nd_def nt_def)
  have d2: "descriptions q ex [opNs, synNs] =
      [typeStr q ''$op'' (conflicting ex opNs),
       ''$.util.OmitDollarPrefixed<'' @ typeStr q ''$syntax'' (conflicting (ex \<union> set (keysOf opNs)) synNs) @ ''>'']"
    by (simp add: spreadType_def opNs_def synNs_def)
  have "mergedTypes s = rev (descriptions q ex ([opNs, synNs] @ nd @ nt))"
    using mergeSurface_char(1) [OF ms] ns by simp
  also have "\<dots> = rev tS @ rev tD @ rev (descriptions q ex [opNs, synNs])"
    by (simp only: descriptions_append rev_append tD_def tS_def ex2_def append_assoc)
  finally have T: "mergedTypes s = rev tS @ rev tD @
      [''$.util.OmitDollarPrefixed<'' @ typeStr q ''$syntax'' (conflicting (ex \<union> set (keysOf opNs)) synNs) @ ''>'',
       typeStr q ''$op'' (conflicting ex opNs)]"
    by (simp only: d2 rev.simps append.simps)
  have "mergedValueLines s = map (\<lambda>m. spreadLine (name m)) (rev ([opNs, synNs] @ nd @ nt))"
    using mergeSurface_char(2) [OF ms] ns by simp
  then have V: "mergedValueLines s = rev vS @ rev vD @
      [''...$.util.omitDollarPrefixed($syntax),'', ''...$op,'']"
    by (simp add: vS_def vD_def rev_map spreadLine_def opNs_def synNs_def)
  have hvS: "rev vS = [] \<or> rev vS = [''..._std,'']"
    by (simp add: vS_def nt_def nonSkipped_def spreadLine_def stdNs_def)
  have hvD: "rev vD = [] \<or> rev vD = [''..._default,'']"
    by (simp add: vD_def nd_def nonSkipped_def spreadLine_def defNs_def)
  have htS: "rev tS = [] \<or> (\<exists>c. rev tS = [typeStr q ''_std'' c])"
    by (auto simp: tS_def nt_def nonSkipped_def spreadType_def stdNs_def)
  have htD: "rev tD = [] \<or> (\<exists>c. rev tD = [typeStr q ''_default'' c])"
    by (auto simp: tD_def nd_def nonSkipped_def spreadType_def defNs_def)
  show ?thesis
    apply (rule exI [of _ s])
    apply (rule exI [of _ "rev tS"])
    apply (rule exI [of _ "rev tD"])
    apply (rule exI [of _ "rev vS"])
    apply (rule exI [of _ "rev vD"])
    apply (rule exI [of _ "conflicting (ex \<union> set (keysOf opNs)) synNs"])
    apply (rule exI [of _ "conflicting ex opNs"])
    apply (intro conjI)
          apply (rule s)
         apply (rule T)
        apply (rule V)
       apply (rule hvS)
      apply (rule hvD)
     apply (rule htS)
    apply (rule htD)
    done
qed

lemmas example_defs =
  exampleQuote_def exampleIdent_def userBuilder_def opNs_def syntaxNs_def moduleNs_def
  dirArray_def dirShared_def dirOp_def dirUser_def dirNoDefault_def

lemmas merger_defs =
  surfaceMerger_def mergeSurface_def initialExcludedKeys_def spreadModules_def getModule_def
  getPath_def newBuilder_def skipped_def resolveKeys_def keysOf_def syntaxKeys_def spreadType_def
  typeStr_def spreadLine_def spreadValues_def nonSkipped_def claimed_def conflicting_def Let_def

text \<open>
  Claim C1 as stated fails where the key was claimed before \<open>A\<close>. With a module named
  \<open>array\<close> and a type \<open>default::array\<close>, take \<open>$syntax\<close> for \<open>A\<close> and \<open>_default\<close> for \<open>B\<close>:
  the description of \<open>$syntax\<close> itself omits \<open>array\<close>, and the key of the merged surface
  is the entry of the module, not the one of \<open>A\<close>.
\<close>

theorem merge_precedence_counterexample:
  \<open>fst (spreadModules exampleIdent dirArray) =
       [opNs, syntaxNs, moduleNs ''_default'' (userBuilder [''array'']),
        moduleNs ''_std'' (userBuilder [''str''])]
   \<and> \<not> skipped syntaxNs \<and> \<not> skipped (moduleNs ''_default'' (userBuilder [''array'']))
   \<and> ''array'' \<in> set (keysOf syntaxNs)
   \<and> ''array'' \<in> set (keysOf (moduleNs ''_default'' (userBuilder [''array''])))
   \<and> map_sum id mergedTypes (surfaceMerger exampleQuote exampleIdent dirArray) =
       Inr [''typeof _std'', ''Omit<typeof _default, "array">'',
            ''$.util.OmitDollarPrefixed<Omit<typeof $syntax, "array">>'', ''typeof $op'']
   \<and> moduleTypeLines exampleQuote exampleIdent (snd (spreadModules exampleIdent dirArray)) =
       [''"default": typeof _default;'', ''"std": typeof _std;'', ''"array": typeof _array;'']\<close>
  by (simp add: merger_defs example_defs moduleTypeLines_def nonEmptyModules_def)

text \<open>
  Claim C2 as stated fails: with a module named \<open>op\<close> the seed is not empty, and the first
  namespace, \<open>$op\<close>, is described with an \<open>Omit\<close>.
\<close>

theorem first_namespace_seed_counterexample:
  \<open>initialExcludedKeys exampleIdent dirOp = {''default'', ''std'', ''op''}
   \<and> initialExcludedKeys exampleIdent dirOp \<noteq> {}
   \<and> hd (nonSkipped (fst (spreadModules exampleIdent dirOp))) = opNs
   \<and> map_sum id (\<lambda>s. last (mergedTypes s)) (surfaceMerger exampleQuote exampleIdent dirOp) =
       Inr ''Omit<typeof $op, "op">''\<close>
  by (simp add: merger_defs example_defs) 

lemma shared_run:
  "mergeSurface exampleQuote
     ([opNs, syntaxNs] @ moduleNs ''_default'' (userBuilder [''str'']) # [] @
        moduleNs ''_std'' (userBuilder [''str'']) # [])
     {''default'', ''std''} = Inr sharedSurface"
  by (simp add: merger_defs example_defs sharedSurface_def)

lemma shared_modules:
  "fst (spreadModules exampleIdent dirShared) =
     [opNs, syntaxNs] @ moduleNs ''_default'' (userBuilder [''str'']) # [] @
        moduleNs ''_std'' (userBuilder [''str'']) # []"
  by (simp add: merger_defs example_defs)

text \<open>
  The modules \<open>default\<close> and \<open>std\<close> both export \<open>str\<close>: the description of \<open>_std\<close> omits
  it, that of \<open>_default\<close> keeps it, and \<open>_default\<close> is spread after \<open>_std\<close>.
\<close>

theorem merge_precedence_witness:
  \<open>mergeSurface exampleQuote (fst (spreadModules exampleIdent dirShared))
       (initialExcludedKeys exampleIdent dirShared) = Inr sharedSurface
   \<and> \<not> skipped (moduleNs ''_default'' (userBuilder [''str'']))
   \<and> \<not> skipped (moduleNs ''_std'' (userBuilder [''str'']))
   \<and> ''str'' \<in> set (keysOf (moduleNs ''_default'' (userBuilder [''str''])))
   \<and> ''str'' \<in> set (keysOf (moduleNs ''_std'' (userBuilder [''str''])))
   \<and> mergedTypes sharedSurface ! 0 = ''Omit<typeof _std, "str">''
   \<and> mergedValueLines sharedSurface ! 0 = ''..._std,''
   \<and> mergedValueLines sharedSurface ! 1 = ''..._default,''
   \<and> mergedTypes sharedSurface ! 1 = ''typeof _default''\<close>
proof -
  let ?A = "moduleNs ''_default'' (userBuilder [''str''])"
  let ?B = "moduleNs ''_std'' (userBuilder [''str''])"
  have h: "\<not> skipped ?A" "\<not> skipped ?B" "''str'' \<in> set (keysOf ?A)" "''str'' \<in> set (keysOf ?B)"
    by (simp_all add: merger_defs example_defs)
  have i: "initialExcludedKeys exampleIdent dirShared = {''default'', ''std''}"
    by (simp add: merger_defs example_defs)
  from merge_precedence [OF shared_run h] shared_run shared_modules i h show ?thesis
    by (simp add: sharedSurface_def)
qed


lemma user_run:
  "mergeSurface exampleQuote (fst (spreadModules exampleIdent dirUser))
     (initialExcludedKeys exampleIdent dirUser) = Inr userSurface"
  by (simp add: merger_defs example_defs userSurface_def)

text \<open>
  Without a module named \<open>op\<close>, the first namespace \<open>$op\<close> is described as it is.
\<close>

theorem first_namespace_seed_witness:
  \<open>mergeSurface exampleQuote (fst (spreadModules exampleIdent dirUser))
       (initialExcludedKeys exampleIdent dirUser) = Inr userSurface
   \<and> nonSkipped (fst (spreadModules exampleIdent dirUser)) =
       opNs # [syntaxNs, moduleNs ''_default'' (userBuilder [''User'']),
               moduleNs ''_std'' (userBuilder [''str''])]
   \<and> initialExcludedKeys exampleIdent dirUser = {''default'', ''std''}
   \<and> last (mergedTypes userSurface) = ''typeof $op''\<close>
proof -
  have n: "nonSkipped (fst (spreadModules exampleIdent dirUser)) =
       opNs # [syntaxNs, moduleNs ''_default'' (userBuilder [''User'']),
               moduleNs ''_std'' (userBuilder [''str''])]"
    by (simp add: merger_defs example_defs)
  have i: "initialExcludedKeys exampleIdent dirUser = {''default'', ''std''}"
    by (simp add: merger_defs example_defs)
  have l: "last (mergedTypes userSurface) = ''typeof $op''"
    by (simp add: userSurface_def)
  from first_namespace_seed [OF user_run n, of exampleIdent dirUser] user_run n i l show ?thesis
    by simp
qed

text \<open>
  A schema without a \<open>default\<close> module: \<open>_default\<close> is backed by a new, empty module.
\<close>

theorem empty_module_skipped_witness:
  \<open>module (moduleNs ''_default'' newBuilder) = Some newBuilder \<and> isEmpty newBuilder
   \<and> fst (spreadModules exampleIdent dirNoDefault) =
       [opNs, syntaxNs] @ moduleNs ''_default'' newBuilder # [moduleNs ''_std'' (userBuilder [''str''])]
   \<and> mergeSurface exampleQuote
        ([opNs, syntaxNs] @ moduleNs ''_default'' newBuilder # [moduleNs ''_std'' (userBuilder [''str''])])
        {''default'', ''std''} = Inr noDefaultSurface
   \<and> mergeSurface exampleQuote ([opNs, syntaxNs] @ [moduleNs ''_std'' (userBuilder [''str''])])
        {''default'', ''std''} = Inr noDefaultSurface\<close>
proof -
  have h: "module (moduleNs ''_default'' newBuilder) = Some newBuilder" "isEmpty newBuilder"
    by (simp_all add: moduleNs_def newBuilder_def)
  have m: "fst (spreadModules exampleIdent dirNoDefault) =
       [opNs, syntaxNs] @ moduleNs ''_default'' newBuilder # [moduleNs ''_std'' (userBuilder [''str''])]"
    by (simp add: merger_defs example_defs)
  have r: "mergeSurface exampleQuote ([opNs, syntaxNs] @ [moduleNs ''_std'' (userBuilder [''str''])])
        {''default'', ''std''} = Inr noDefaultSurface"
    by (simp add: merger_defs example_defs noDefaultSurface_def)
  from empty_module_skipped [OF h, of exampleQuote "[opNs, syntaxNs]"
      "[moduleNs ''_std'' (userBuilder [''str''])]" "{''default'', ''std''}" "[]"] h m r
  show ?thesis by simp
qed

text \<open>
  The four namespaces of a run, declared as \<open>$op\<close>, \<open>$syntax\<close>, \<open>_default\<close>, \<open>_std\<close>.
\<close>

theorem merged_in_reverse_order_witness:
  \<open>mergeSurface exampleQuote (fst (spreadModules exampleIdent dirShared))
       (initialExcludedKeys exampleIdent dirShared) = Inr sharedSurface
   \<and> map name (nonSkipped (fst (spreadModules exampleIdent dirShared))) =
       [''$op'', ''$syntax'', ''_default'', ''_std'']
   \<and> mergedTypes sharedSurface =
       [''Omit<typeof _std, "str">'', ''typeof _default'',
        ''$.util.OmitDollarPrefixed<typeof $syntax>'', ''typeof $op'']
   \<and> mergedValueLines sharedSurface =
       [''..._std,'', ''..._default,'', ''...$.util.omitDollarPrefixed($syntax),'', ''...$op,'']\<close>
proof -
  have r: "mergeSurface exampleQuote (fst (spreadModules exampleIdent dirShared))
       (initialExcludedKeys exampleIdent dirShared) = Inr sharedSurface"
    by (simp add: merger_defs example_defs sharedSurface_def)
  have n: "map name (nonSkipped (fst (spreadModules exampleIdent dirShared))) =
       [''$op'', ''$syntax'', ''_default'', ''_std'']"
    by (simp add: merger_defs example_defs)
  from merged_in_reverse_order [OF r] r n show ?thesis
    by (simp add: sharedSurface_def)
qed

section \<open>The index of types by name\<close>

lemma typesByName_loop_dom:
  "dom (typesByName_loop tys tbn) = dom tbn \<union> set (map type_name tys)"
  by (induction tys arbitrary: tbn) (auto simp: Let_def)

lemma typesByName_dom: "dom (typesByName tys) = set (map type_name tys)"
  by (simp add: typesByName_def typesByName_loop_dom)

text \<open>
  Claim C5 fails on the code. The loop stores every type under its name before it tests
  the name for \<open>"::"\<close>, so the placeholder \<open>anytype\<close> is in the index, against the
  comment of line 102.
\<close>

theorem typesByName_keeps_anytype:
  "\<not> includes_str (type_name anytypeT) ''::''
   \<and> typesByName [anytypeT, strT] ''anytype'' = Some anytypeT
   \<and> dom (typesByName [anytypeT, strT]) = {''anytype'', ''std::str''}"
  by (auto simp: typesByName_def anytypeT_def strT_def startsWith_def)

section \<open>Properties of the directory synchronizer\<close>

subsection \<open>File operations\<close>

lemma readFileOrEmpty_writeFile:
  "readFileOrEmpty p (writeFile d c fs) = (if p = d then c else readFileOrEmpty p fs)"
  by (simp add: readFileOrEmpty_def writeFile_def AList.update_conv')

lemma map_of_writeFile:
  "map_of (files (writeFile d c fs)) = (map_of (files fs))(d \<mapsto> c)"
  by (simp add: writeFile_def AList.update_conv')

lemma keys_writeFile:
  "set (map fst (files (writeFile d c fs))) = insert d (set (map fst (files fs)))"
  using AList.dom_update [of d c "files fs"] by (simp add: writeFile_def)

lemma dirs_writeFile [simp]: "dirs (writeFile d c fs) = dirs fs"
  by (simp add: writeFile_def)

lemma trace_writeFile [simp]: "trace (writeFile d c fs) = trace fs @ [WriteFile d c]"
  by (simp add: writeFile_def)

lemma files_mkdir [simp]: "files (mkdir p fs) = files fs"
  by (simp add: mkdir_def)

lemma trace_mkdir [simp]: "trace (mkdir p fs) = trace fs @ [Mkdir p]"
  by (simp add: mkdir_def)

lemma readFileOrEmpty_mkdir [simp]: "readFileOrEmpty p (mkdir d fs) = readFileOrEmpty p fs"
  by (simp add: readFileOrEmpty_def)

lemma writeFile_same:
  "map_of (files fs) d = Some c \<Longrightarrow> writeFile d c fs = fs\<lparr>trace := trace fs @ [WriteFile d c]\<rparr>"
  by (simp add: writeFile_def AList.update_triv)

subsection \<open>The compare-then-write step and its loop\<close>

lemma syncFile_written [simp]: "snd (syncFile d c st) = insert d (snd st)"
  by (simp add: syncFile_def split: prod.splits)

lemma syncFile_read: "readFileOrEmpty p (fst (syncFile d c st)) = (if p = d then c else readFileOrEmpty p (fst st))"
  by (auto simp: syncFile_def readFileOrEmpty_writeFile split: prod.splits)

lemma syncFile_map_of_other:
  "p \<noteq> d \<Longrightarrow> map_of (files (fst (syncFile d c st))) p = map_of (files (fst st)) p"
  by (auto simp: syncFile_def map_of_writeFile split: prod.splits)

lemma syncFile_dirs [simp]: "dirs (fst (syncFile d c st)) = dirs (fst st)"
  by (simp add: syncFile_def split: prod.splits)

lemma syncFile_keys_mono:
  "set (map fst (files (fst st))) \<subseteq> set (map fst (files (fst (syncFile d c st))))"
  by (auto simp: syncFile_def keys_writeFile split: prod.splits simp del: set_map)

lemma syncFile_keys_upper:
  "set (map fst (files (fst (syncFile d c st)))) \<subseteq> insert d (set (map fst (files (fst st))))"
  by (auto simp: syncFile_def keys_writeFile split: prod.splits simp del: set_map)

lemma syncFile_trace:
  "\<exists>ops. trace (fst (syncFile d c st)) = trace (fst st) @ ops \<and> list_all (\<lambda>op. \<not> isRm op) ops"
  by (auto simp: syncFile_def split: prod.splits)

lemma syncFile_noop:
  "readFileOrEmpty d (fst st) = c \<Longrightarrow> syncFile d c st = (fst st, insert d (snd st))"
  by (cases st) (simp add: syncFile_def)

lemma dirWrite_loop_append:
  "dirWrite_loop (xs @ ys) st = dirWrite_loop ys (dirWrite_loop xs st)"
  by (induction xs st rule: dirWrite_loop.induct) simp_all

lemma dirWrite_loop_written: "snd (dirWrite_loop outs st) = snd st \<union> set (map fst outs)"
  by (induction outs st rule: dirWrite_loop.induct) auto

lemma dirWrite_loop_dirs [simp]: "dirs (fst (dirWrite_loop outs st)) = dirs (fst st)"
  by (induction outs st rule: dirWrite_loop.induct) simp_all

lemma dirWrite_loop_map_of_other:
  "p \<notin> set (map fst outs) \<Longrightarrow>
     map_of (files (fst (dirWrite_loop outs st))) p = map_of (files (fst st)) p"
  by (induction outs st rule: dirWrite_loop.induct) (simp_all add: syncFile_map_of_other)

lemma dirWrite_loop_read_other:
  "p \<notin> set (map fst outs) \<Longrightarrow>
     readFileOrEmpty p (fst (dirWrite_loop outs st)) = readFileOrEmpty p (fst st)"
  by (simp add: readFileOrEmpty_def dirWrite_loop_map_of_other)

lemma dirWrite_loop_read:
  "distinct (map fst outs) \<Longrightarrow> (d, c) \<in> set outs \<Longrightarrow>
     readFileOrEmpty d (fst (dirWrite_loop outs st)) = c"
proof (induction outs arbitrary: st)
  case Nil
  then show ?case by simp
next
  case (Cons x outs)
  obtain d0 c0 where x: "x = (d0, c0)" by (cases x)
  show ?case
  proof (cases "(d, c) = x")
    case True
    with Cons.prems x have "d \<notin> set (map fst outs)" by auto
    then have "readFileOrEmpty d (fst (dirWrite_loop outs (syncFile d c st)))
        = readFileOrEmpty d (fst (syncFile d c st))"
      by (rule dirWrite_loop_read_other)
    with True x show ?thesis by (simp add: syncFile_read)
  next
    case False
    with Cons.prems have "(d, c) \<in> set outs" and "distinct (map fst outs)" by auto
    with Cons.IH x show ?thesis by simp
  qed
qed

lemma dirWrite_loop_keys_mono:
  "set (map fst (files (fst st))) \<subseteq> set (map fst (files (fst (dirWrite_loop outs st))))"
proof (induction outs arbitrary: st)
  case Nil
  then show ?case by simp
next
  case (Cons x outs)
  obtain d c where x: "x = (d, c)" by (cases x)
  from syncFile_keys_mono [of st d c] Cons.IH [of "syncFile d c st"] x show ?case
    by (auto simp del: set_map)
qed

lemma dirWrite_loop_keys_upper:
  "set (map fst (files (fst (dirWrite_loop outs st))))
     \<subseteq> set (map fst (files (fst st))) \<union> set (map fst outs)"
proof (induction outs arbitrary: st)
  case Nil
  then show ?case by simp
next
  case (Cons x outs)
  obtain d c where x: "x = (d, c)" by (cases x)
  from syncFile_keys_upper [of d c st] Cons.IH [of "syncFile d c st"] x show ?case
    by (auto simp del: set_map)
qed

lemma dirWrite_loop_trace:
  "\<exists>ops. trace (fst (dirWrite_loop outs st)) = trace (fst st) @ ops \<and> list_all (\<lambda>op. \<not> isRm op) ops"
proof (induction outs arbitrary: st)
  case Nil
  then show ?case by simp
next
  case (Cons x outs)
  obtain d c where x: "x = (d, c)" by (cases x)
  from syncFile_trace [of d c st] obtain ops1 where
    o1: "trace (fst (syncFile d c st)) = trace (fst st) @ ops1" "list_all (\<lambda>op. \<not> isRm op) ops1"
    by blast
  from Cons.IH [of "syncFile d c st"] obtain ops2 where
    o2: "trace (fst (dirWrite_loop outs (syncFile d c st))) = trace (fst (syncFile d c st)) @ ops2"
      "list_all (\<lambda>op. \<not> isRm op) ops2"
    by blast
  from o1 o2 x have "trace (fst (dirWrite_loop (x # outs) st)) = trace (fst st) @ (ops1 @ ops2)"
    and "list_all (\<lambda>op. \<not> isRm op) (ops1 @ ops2)" by simp_all
  then show ?case by blast
qed

lemma dirWrite_loop_noop:
  "(\<And>d c. (d, c) \<in> set outs \<Longrightarrow> readFileOrEmpty d (fst st) = c) \<Longrightarrow>
     dirWrite_loop outs st = (fst st, snd st \<union> set (map fst outs))"
proof (induction outs arbitrary: st)
  case Nil
  then show ?case by simp
next
  case (Cons x outs)
  obtain d c where x: "x = (d, c)" by (cases x)
  with Cons.prems have "readFileOrEmpty d (fst st) = c" by simp
  then have s: "syncFile d c st = (fst st, insert d (snd st))" by (rule syncFile_noop)
  have "dirWrite_loop outs (fst st, insert d (snd st)) =
      (fst (fst st, insert d (snd st)), snd (fst st, insert d (snd st)) \<union> set (map fst outs))"
    by (rule Cons.IH) (simp add: Cons.prems)
  with s x show ?case by simp
qed

subsection \<open>The phases of the run\<close>

lemma writeTarget_eq:
  "writeTarget rendered od pss st = dirWrite_loop (concat (map (rendered od) pss)) st"
  by (induction pss arbitrary: st) (simp_all add: dirWrite_def dirWrite_loop_append)

lemma syntaxLoop_ok:
  "list_all (\<lambda>(n, c). \<not> includes_str c disallowedImport) (selectedSyntax t sfs) \<Longrightarrow>
     syntaxLoop rx t (path_join od ''syntax'') sfs st =
       (None, dirWrite_loop (syntaxOutputs rx t od (selectedSyntax t sfs)) st)"
  by (induction rx t "path_join od ''syntax''" sfs st rule: syntaxLoop.induct)
     (auto simp: selectedSyntax_def syntaxOutputs_def split: if_splits)

lemma syntaxLoop_bad:
  "selectedSyntax t sfs = pre @ (bn, bc) # post \<Longrightarrow>
   list_all (\<lambda>(n, c). \<not> includes_str c disallowedImport) pre \<Longrightarrow>
   includes_str bc disallowedImport \<Longrightarrow>
     syntaxLoop rx t (path_join od ''syntax'') sfs st =
       (Some NoDirectoryImports, dirWrite_loop (syntaxOutputs rx t od pre) st)"
proof (induction sfs arbitrary: st pre)
  case Nil
  then show ?case by (simp add: selectedSyntax_def)
next
  case (Cons x sfs)
  obtain n c where x: "x = (n, c)" by (cases x)
  show ?case
  proof (cases "skipSyntaxFile t (filetype n)")
    case True
    with Cons x show ?thesis by (simp add: selectedSyntax_def)
  next
    case False
    with Cons.prems(1) x have sel: "(n, c) # selectedSyntax t sfs = pre @ (bn, bc) # post"
      by (simp add: selectedSyntax_def)
    show ?thesis
    proof (cases pre)
      case Nil
      with sel Cons.prems(3) False x show ?thesis by (simp add: syntaxOutputs_def)
    next
      case (Cons y pre')
      with sel have y: "y = (n, c)" and sel': "selectedSyntax t sfs = pre' @ (bn, bc) # post"
        by simp_all
      from Cons.prems(2) Cons y have nc: "\<not> includes_str c disallowedImport"
        and pre': "list_all (\<lambda>(n, c). \<not> includes_str c disallowedImport) pre'"
        by simp_all
      from Cons.IH [OF sel' pre' Cons.prems(3)] False nc x Cons y show ?thesis
        by (simp add: syntaxOutputs_def)
    qed
  qed
qed

lemma syntaxLoop_None:
  "list_all (\<lambda>(n, c). \<not> includes_str c disallowedImport) (selectedSyntax t sfs) \<Longrightarrow>
     fst (syntaxLoop rx t sod sfs st) = None"
  by (induction rx t sod sfs st rule: syntaxLoop.induct)
     (auto simp: selectedSyntax_def split: if_splits)

lemma syntaxLoop_cases:
  "(\<exists>st'. syntaxLoop rx t sod sfs st = (None, st')
       \<and> list_all (\<lambda>(n, c). \<not> includes_str c disallowedImport) (selectedSyntax t sfs))
   \<or> (\<exists>pre bn bc post. selectedSyntax t sfs = pre @ (bn, bc) # post
       \<and> list_all (\<lambda>(n, c). \<not> includes_str c disallowedImport) pre
       \<and> includes_str bc disallowedImport)"
proof (cases "list_all (\<lambda>(n, c). \<not> includes_str c disallowedImport) (selectedSyntax t sfs)")
  case True
  have "\<exists>st'. syntaxLoop rx t sod sfs st = (None, st')"
    using syntaxLoop_None [OF True, of rx sod st] by (cases "syntaxLoop rx t sod sfs st") simp
  with True show ?thesis by blast
next
  case False
  then obtain x where "x \<in> set (selectedSyntax t sfs)"
    and "\<not> (\<lambda>(n, c). \<not> includes_str c disallowedImport) x"
    by (auto simp: list_all_iff)
  then obtain pre y post where sp: "selectedSyntax t sfs = pre @ y # post"
    and ny: "\<not> (\<lambda>(n, c). \<not> includes_str c disallowedImport) y"
    and ap: "\<forall>z\<in>set pre. (\<lambda>(n, c). \<not> includes_str c disallowedImport) z"
    using split_list_first_prop [of "selectedSyntax t sfs" "\<lambda>x. \<not> (\<lambda>(n, c). \<not> includes_str c disallowedImport) x"]
    by blast
  obtain bn bc where y: "y = (bn, bc)" by (cases y)
  from sp ny ap y show ?thesis by (auto simp: list_all_iff)
qed

subsection \<open>Deleting the vestigial files\<close>

lemma trace_rm [simp]: "trace (rm p fs) = trace fs @ [Rm p]"
  by (simp add: rm_def)

lemma dirs_rm [simp]: "dirs (rm p fs) = dirs fs"
  by (simp add: rm_def)

lemma map_of_rm: "map_of (files (rm p fs)) = (map_of (files fs))(p := None)"
  by (simp add: rm_def AList.delete_conv')

lemma deleteVestigial_trace:
  "trace (deleteVestigial fl w fs) = trace fs @ map Rm (filter (\<lambda>f. f \<notin> w) fl)"
  by (induction fl arbitrary: fs) simp_all

lemma deleteVestigial_dirs [simp]: "dirs (deleteVestigial fl w fs) = dirs fs"
  by (induction fl arbitrary: fs) simp_all

lemma deleteVestigial_map_of:
  "map_of (files (deleteVestigial fl w fs)) p =
     (if p \<in> set fl \<and> p \<notin> w then None else map_of (files fs) p)"
  by (induction fl arbitrary: fs) (auto simp: map_of_rm)

lemma deleteVestigial_none: "set fl \<subseteq> w \<Longrightarrow> deleteVestigial fl w fs = fs"
  by (induction fl arbitrary: fs) simp_all

lemma set_js_set [simp]: "set (js_set xs) = set xs"
  by (simp add: js_set_def)

subsection \<open>Steps that only write\<close>

lemma onlyWrites_refl [simp]: "onlyWrites fs fs"
  by (simp add: onlyWrites_def)

lemma onlyWrites_trans: "onlyWrites a b \<Longrightarrow> onlyWrites b c \<Longrightarrow> onlyWrites a c"
proof -
  assume ab: "onlyWrites a b" and bc: "onlyWrites b c"
  from ab obtain o1 where o1: "trace b = trace a @ o1" "list_all (\<lambda>op. \<not> isRm op) o1"
    by (auto simp: onlyWrites_def)
  from bc obtain o2 where o2: "trace c = trace b @ o2" "list_all (\<lambda>op. \<not> isRm op) o2"
    by (auto simp: onlyWrites_def)
  from o1 o2 have "trace c = trace a @ (o1 @ o2)" "list_all (\<lambda>op. \<not> isRm op) (o1 @ o2)"
    by simp_all
  then have "\<exists>ops. trace c = trace a @ ops \<and> list_all (\<lambda>op. \<not> isRm op) ops" by blast
  moreover from ab bc have "set (map fst (files a)) \<subseteq> set (map fst (files c))"
    unfolding onlyWrites_def by blast
  ultimately show ?thesis by (simp add: onlyWrites_def)
qed

lemma onlyWrites_dirWrite_loop: "onlyWrites (fst st) (fst (dirWrite_loop outs st))"
  unfolding onlyWrites_def using dirWrite_loop_trace [of outs st] dirWrite_loop_keys_mono [of st outs]
  by blast

lemma onlyWrites_mkdir: "onlyWrites fs (mkdir p fs)"
  by (simp add: onlyWrites_def)

lemma onlyWrites_writeFile: "onlyWrites fs (writeFile p c fs)"
  unfolding onlyWrites_def using keys_writeFile [of p c fs] by auto

lemma writeModules_eq:
  "writeModules r od t fs0 =
     (let st1 = dirWrite_loop (renderedAll r od t) (fs0, {})
      in if \<not> exists_path (path_join od ''syntax'') (fst st1)
         then (mkdir (path_join od ''syntax'') (fst st1), snd st1) else st1)"
  by (simp add: writeModules_def writeTarget_eq renderedAll_def Let_def)

lemma onlyWrites_writeModules: "onlyWrites fs0 (fst (writeModules r od t fs0))"
proof -
  have a: "onlyWrites fs0 (fst (dirWrite_loop (renderedAll r od t) (fs0, {})))"
    using onlyWrites_dirWrite_loop [of "(fs0, {})"] by simp
  show ?thesis
    unfolding writeModules_eq Let_def
    using a onlyWrites_trans [OF a onlyWrites_mkdir] by simp
qed

lemma writeModules_written: "snd (writeModules r od t fs0) = set (map fst (renderedAll r od t))"
  by (simp add: writeModules_eq Let_def dirWrite_loop_written)

lemma writeConfig_fst:
  "fst (writeConfig od t st) = writeFile (path_join od ''config.json'') (configContents t) (fst st)"
  by (simp add: writeConfig_def Let_def split: prod.splits)

lemma writeConfig_snd: "snd (writeConfig od t st) = insert (path_join od ''config.json'') (snd st)"
  by (simp add: writeConfig_def Let_def split: prod.splits)

lemma writeOutput_ok:
  assumes "list_all (\<lambda>(n, c). \<not> includes_str c disallowedImport) (selectedSyntax t sfs)"
  shows "writeOutput r rx sfs od t fs0 =
     (None, writeConfig od t
        (dirWrite_loop (syntaxOutputs rx t od (selectedSyntax t sfs)) (writeModules r od t fs0)))"
  by (simp add: writeOutput_def syntaxLoop_ok [OF assms])

lemma writeOutput_bad:
  assumes "selectedSyntax t sfs = pre @ (bn, bc) # post"
    and "list_all (\<lambda>(n, c). \<not> includes_str c disallowedImport) pre"
    and "includes_str bc disallowedImport"
  shows "writeOutput r rx sfs od t fs0 =
     (Some NoDirectoryImports, dirWrite_loop (syntaxOutputs rx t od pre) (writeModules r od t fs0))"
  by (simp add: writeOutput_def syntaxLoop_bad [OF assms])

lemma writeOutput_cases:
  obtains (ok) "list_all (\<lambda>(n, c). \<not> includes_str c disallowedImport) (selectedSyntax t sfs)"
  | (bad) pre bn bc post where "selectedSyntax t sfs = pre @ (bn, bc) # post"
      and "list_all (\<lambda>(n, c). \<not> includes_str c disallowedImport) pre"
      and "includes_str bc disallowedImport"
  using syntaxLoop_cases [of undefined t undefined sfs undefined] by blast

lemma writeOutput_onlyWrites: "onlyWrites fs0 (fst (snd (writeOutput r rx sfs od t fs0)))"
proof (cases rule: writeOutput_cases [of t sfs])
  case ok
  let ?st = "dirWrite_loop (syntaxOutputs rx t od (selectedSyntax t sfs)) (writeModules r od t fs0)"
  have "onlyWrites fs0 (fst ?st)"
    using onlyWrites_trans [OF onlyWrites_writeModules onlyWrites_dirWrite_loop] .
  then have "onlyWrites fs0 (fst (writeConfig od t ?st))"
    unfolding writeConfig_fst using onlyWrites_trans [OF _ onlyWrites_writeFile] by blast
  then show ?thesis by (simp add: writeOutput_ok [OF ok])
next
  case (bad pre bn bc post)
  have "onlyWrites fs0 (fst (dirWrite_loop (syntaxOutputs rx t od pre) (writeModules r od t fs0)))"
    using onlyWrites_trans [OF onlyWrites_writeModules onlyWrites_dirWrite_loop] .
  then show ?thesis by (simp add: writeOutput_bad [OF bad])
qed

lemma writeOutput_error:
  "writeOutput r rx sfs od t fs0 = (Some e, fsW, w) \<Longrightarrow> e = NoDirectoryImports"
  by (cases rule: writeOutput_cases [of t sfs]) (simp_all add: writeOutput_ok writeOutput_bad)

lemma writeOutput_config:
  assumes "writeOutput r rx sfs od t fs0 = (None, fsW, w)"
  shows "path_join od ''config.json'' \<in> w"
    and "\<exists>ops. trace fsW = trace fs0 @ ops @ [WriteFile (path_join od ''config.json'') (configContents t)]"
    and "map_of (files fsW) (path_join od ''config.json'') = Some (configContents t)"
proof -
  let ?st = "dirWrite_loop (syntaxOutputs rx t od (selectedSyntax t sfs)) (writeModules r od t fs0)"
  have ok: "list_all (\<lambda>(n, c). \<not> includes_str c disallowedImport) (selectedSyntax t sfs)"
    using assms by (cases rule: writeOutput_cases [of t sfs]) (simp_all add: writeOutput_bad)
  from assms writeOutput_ok [OF ok, of r rx od fs0]
  have w: "writeConfig od t ?st = (fsW, w)" by simp
  from w have fsW: "fsW = writeFile (path_join od ''config.json'') (configContents t) (fst ?st)"
    using writeConfig_fst [of od t ?st] by simp
  from w show "path_join od ''config.json'' \<in> w"
    using writeConfig_snd [of od t ?st] by auto
  have "onlyWrites fs0 (fst ?st)"
    using onlyWrites_trans [OF onlyWrites_writeModules onlyWrites_dirWrite_loop] .
  then obtain ops where "trace (fst ?st) = trace fs0 @ ops" by (auto simp: onlyWrites_def)
  with fsW show "\<exists>ops. trace fsW = trace fs0 @ ops @ [WriteFile (path_join od ''config.json'') (configContents t)]"
    by simp
  from fsW show "map_of (files fsW) (path_join od ''config.json'') = Some (configContents t)"
    by (simp add: map_of_writeFile)
qed

lemma generateQB_cases:
  obtains (failed) e where "generate env = Inl e" and "generateQB env ps fs0 = (Some e, fs0)"
  | (reached) dir merged where "generate env = Inr (dir, merged)"
      and "generateQB env ps fs0 =
             synchronize (render env dir merged) (regex env) (syntaxFiles env) (outputDir ps) (target ps) fs0"
  by (cases "generate env") (auto simp: generateQB_def)

lemma synchronize_eq:
  "synchronize r rx sfs od t fs0 =
     (case writeOutput r rx sfs od t fs0 of
        (Some e, fs, w) \<Rightarrow> (Some e, fs)
      | (None, fs, w) \<Rightarrow> (None, deleteVestigial (js_set (walk od fs0)) w fs))"
  by (simp add: synchronize_def)

text \<open>
  Claim C8. When the run succeeds, all calls before the deletions are writes; after
  them the files removed are, in the order of \<open>initialFiles\<close>, exactly the members of
  \<open>initialFiles\<close> that are not in \<open>written\<close>, and every other file is as the writes left
  it. When the run ends with an error, whichever it is, no file has been removed.
\<close>

theorem vestigial_files_deleted:
  "(\<forall>fs'. generateQB env ps fs0 = (None, fs') \<longrightarrow>
      (\<exists>dir merged fsW written ops.
          generate env = Inr (dir, merged)
        \<and> writeOutput (render env dir merged) (regex env) (syntaxFiles env)
              (outputDir ps) (target ps) fs0 = (None, fsW, written)
        \<and> trace fsW = trace fs0 @ ops \<and> list_all (\<lambda>op. \<not> isRm op) ops
        \<and> trace fs' = trace fsW @
              map Rm (filter (\<lambda>file. file \<notin> written) (js_set (walk (outputDir ps) fs0)))
        \<and> (\<forall>p. map_of (files fs') p =
              (if p \<in> set (walk (outputDir ps) fs0) \<and> p \<notin> written then None
               else map_of (files fsW) p))))
   \<and> (\<forall>e fs'. generateQB env ps fs0 = (Some e, fs') \<longrightarrow>
        (\<exists>ops. trace fs' = trace fs0 @ ops \<and> list_all (\<lambda>op. \<not> isRm op) ops)
        \<and> set (map fst (files fs0)) \<subseteq> set (map fst (files fs')))"
proof (cases rule: generateQB_cases [of env ps fs0])
  case (failed e)
  then show ?thesis by simp
next
  case (reached dir merged)
  let ?r = "render env dir merged"
  obtain res fsW w where wo:
    "writeOutput ?r (regex env) (syntaxFiles env) (outputDir ps) (target ps) fs0 = (res, fsW, w)"
    by (cases "writeOutput ?r (regex env) (syntaxFiles env) (outputDir ps) (target ps) fs0")
  have ow: "onlyWrites fs0 fsW"
    using writeOutput_onlyWrites [of fs0 ?r "regex env" "syntaxFiles env" "outputDir ps" "target ps"] wo
    by simp
  show ?thesis
  proof (cases res)
    case None
    with wo reached have g: "generateQB env ps fs0 =
        (None, deleteVestigial (js_set (walk (outputDir ps) fs0)) w fsW)"
      by (simp add: synchronize_eq)
    from ow obtain ops where ops: "trace fsW = trace fs0 @ ops" "list_all (\<lambda>op. \<not> isRm op) ops"
      by (auto simp: onlyWrites_def)
    from g reached wo None ops show ?thesis
      by (auto simp: deleteVestigial_trace deleteVestigial_map_of)
  next
    case (Some e)
    with wo reached have g: "generateQB env ps fs0 = (Some e, fsW)"
      by (simp add: synchronize_eq)
    with ow show ?thesis by (simp add: onlyWrites_def)
  qed
qed

text \<open>
  Claim C9. On a successful run the write of \<open>config.json\<close> is the last write: only
  removals follow it, and none of them removes \<open>config.json\<close>, whose path is in
  \<open>written\<close>. The file then holds the header line and, on a line of its own, the JSON
  object naming the chosen target, spelled out for each of the five targets; for the
  target \<open>ts\<close> that is \<open>{"target":"ts"}\<close>.
\<close>

theorem config_written_last:
  assumes "generateQB env ps fs0 = (None, fs')"
  shows \<open>\<exists>dir merged fsW written ops dels.
      generate env = Inr (dir, merged)
    \<and> writeOutput (render env dir merged) (regex env) (syntaxFiles env)
          (outputDir ps) (target ps) fs0 = (None, fsW, written)
    \<and> path_join (outputDir ps) ''config.json'' \<in> written
    \<and> trace fsW = trace fs0 @ ops @
          [WriteFile (path_join (outputDir ps) ''config.json'') (configContents (target ps))]
    \<and> trace fs' = trace fsW @ map Rm dels
    \<and> path_join (outputDir ps) ''config.json'' \<notin> set dels
    \<and> map_of (files fs') (path_join (outputDir ps) ''config.json'') = Some (configContents (target ps))
    \<and> configContents (target ps) =
          ''// EdgeDB query builder. To update, run `npx edgeql-js`'' @ ''\<newline>'' @
          (case target ps of
             Ts \<Rightarrow> ''{"target":"ts"}''
           | Esm \<Rightarrow> ''{"target":"esm"}''
           | Cjs \<Rightarrow> ''{"target":"cjs"}''
           | Mts \<Rightarrow> ''{"target":"mts"}''
           | Deno \<Rightarrow> ''{"target":"deno"}'') @ ''\<newline>''
    \<and> configContents Ts =
          ''// EdgeDB query builder. To update, run `npx edgeql-js`\<newline>{"target":"ts"}\<newline>''\<close>
proof (cases rule: generateQB_cases [of env ps fs0])
  case (failed e)
  with assms show ?thesis by simp
next
  case (reached dir merged)
  let ?r = "render env dir merged"
  let ?cp = "path_join (outputDir ps) ''config.json''"
  obtain res fsW w where wo:
    "writeOutput ?r (regex env) (syntaxFiles env) (outputDir ps) (target ps) fs0 = (res, fsW, w)"
    by (cases "writeOutput ?r (regex env) (syntaxFiles env) (outputDir ps) (target ps) fs0")
  from assms reached wo have res: "res = None"
    and fs': "fs' = deleteVestigial (js_set (walk (outputDir ps) fs0)) w fsW"
    by (auto simp: synchronize_eq split: option.splits)
  note wo' = wo [unfolded res]
  from writeOutput_config [OF wo'] obtain ops where
    cw: "?cp \<in> w"
    and tr: "trace fsW = trace fs0 @ ops @ [WriteFile ?cp (configContents (target ps))]"
    and mo: "map_of (files fsW) ?cp = Some (configContents (target ps))"
    by blast
  let ?dels = "filter (\<lambda>file. file \<notin> w) (js_set (walk (outputDir ps) fs0))"
  have t': "trace fs' = trace fsW @ map Rm ?dels"
    by (simp add: fs' deleteVestigial_trace)
  have nd: "?cp \<notin> set ?dels" using cw by simp
  have m': "map_of (files fs') ?cp = Some (configContents (target ps))"
    using cw mo by (simp add: fs' deleteVestigial_map_of)
  have c1: \<open>configContents (target ps) =
          ''// EdgeDB query builder. To update, run `npx edgeql-js`'' @ ''\<newline>'' @
          (case target ps of
             Ts \<Rightarrow> ''{"target":"ts"}''
           | Esm \<Rightarrow> ''{"target":"esm"}''
           | Cjs \<Rightarrow> ''{"target":"cjs"}''
           | Mts \<Rightarrow> ''{"target":"mts"}''
           | Deno \<Rightarrow> ''{"target":"deno"}'') @ ''\<newline>''\<close>
    by (cases "target ps")
       (simp_all add: configContents_def stringifyTarget_def configFileHeader_def targetName_def)
  have c2: \<open>configContents Ts =
          ''// EdgeDB query builder. To update, run `npx edgeql-js`\<newline>{"target":"ts"}\<newline>''\<close>
    by (simp add: configContents_def stringifyTarget_def configFileHeader_def targetName_def)
  from reached(1) wo' cw tr t' nd m' c1 c2 show ?thesis by blast
qed

text \<open>
  Claim C4, as the code has it. Let the run reach the output phase, and let a syntax
  file that the target selects contain \<open>"edgedb/dist/reflection"\<close> (quotes included),
  the selected files before it being free of it. Then the run fails with the error of
  line 383 when the loop reaches that file. The file system is then as the passes of
  \<open>dir.write\<close>, the creation of the \<open>syntax\<close> directory and the copies of the selected
  files before that one have left it: that file and the later ones are not copied, the
  metadata file is not written, and no file has been deleted.
\<close>

theorem disallowed_import_halts:
  assumes "generate env = Inr (dir, merged)"
    and "selectedSyntax (target ps) (syntaxFiles env) = pre @ (badName, badContents) # post"
    and "list_all (\<lambda>(fileName, contents). \<not> includes_str contents disallowedImport) pre"
    and "includes_str badContents disallowedImport"
  shows "generateQB env ps fs0 =
           (Some NoDirectoryImports,
            fst (dirWrite_loop (syntaxOutputs (regex env) (target ps) (outputDir ps) pre)
                   (writeModules (render env dir merged) (outputDir ps) (target ps) fs0)))
       \<and> (\<exists>ops. trace (snd (generateQB env ps fs0)) = trace fs0 @ ops
                \<and> list_all (\<lambda>op. \<not> isRm op) ops)
       \<and> set (map fst (files fs0)) \<subseteq> set (map fst (files (snd (generateQB env ps fs0))))"
proof -
  let ?r = "render env dir merged"
  let ?st = "dirWrite_loop (syntaxOutputs (regex env) (target ps) (outputDir ps) pre)
                   (writeModules ?r (outputDir ps) (target ps) fs0)"
  have wo: "writeOutput ?r (regex env) (syntaxFiles env) (outputDir ps) (target ps) fs0 =
      (Some NoDirectoryImports, ?st)"
    by (rule writeOutput_bad [OF assms(2,3,4)])
  then have g: "generateQB env ps fs0 = (Some NoDirectoryImports, fst ?st)"
    using assms(1) by (cases ?st) (simp add: generateQB_def synchronize_eq)
  have "onlyWrites fs0 (fst ?st)"
    using writeOutput_onlyWrites [of fs0 ?r "regex env" "syntaxFiles env" "outputDir ps" "target ps"] wo
    by simp
  with g show ?thesis by (simp add: onlyWrites_def)
qed

lemma key_iff: "p \<in> set (map fst (files fs)) \<longleftrightarrow> map_of (files fs) p \<noteq> None"
  by (simp add: map_of_eq_None_iff)

lemma readFileOrEmpty_cong:
  "map_of (files fs) p = map_of (files fs') p \<Longrightarrow> readFileOrEmpty p fs = readFileOrEmpty p fs'"
  by (simp add: readFileOrEmpty_def)

lemma walk_iff: "p \<in> set (walk od fs) \<longleftrightarrow> startsWith p (od @ ''/'') \<and> p \<in> set (map fst (files fs))"
  by (auto simp: walk_def)

lemma exists_path_mkdir: "exists_path p (mkdir p fs)"
  by (simp add: exists_path_def mkdir_def)

lemma writeModules_exists: "exists_path (path_join od ''syntax'') (fst (writeModules r od t fs0))"
  by (simp add: writeModules_eq Let_def exists_path_mkdir)

lemma writeModules_dirs_or_rendered:
  assumes "path_join od ''syntax'' \<notin> set (map fst (files fs0))"
  shows "path_join od ''syntax'' \<in> set (dirs (fst (writeModules r od t fs0)))
       \<or> path_join od ''syntax'' \<in> set (map fst (renderedAll r od t))"
proof -
  let ?st1 = "dirWrite_loop (renderedAll r od t) (fs0, {})"
  show ?thesis
  proof (cases "exists_path (path_join od ''syntax'') (fst ?st1)")
    case False
    then show ?thesis by (simp add: writeModules_eq Let_def mkdir_def)
  next
    case True
    then have w: "fst (writeModules r od t fs0) = fst ?st1" by (simp add: writeModules_eq Let_def)
    from True consider "path_join od ''syntax'' \<in> set (dirs (fst ?st1))"
      | "path_join od ''syntax'' \<in> set (map fst (files (fst ?st1)))"
      by (auto simp: exists_path_def)
    then show ?thesis
    proof cases
      case 1
      with w show ?thesis by simp
    next
      case 2
      with dirWrite_loop_keys_upper [of "renderedAll r od t" "(fs0, {})"] assms
      show ?thesis by auto
    qed
  qed
qed

lemma writeModules_read:
  assumes "distinct (map fst (renderedAll r od t))" and "(d, c) \<in> set (renderedAll r od t)"
  shows "readFileOrEmpty d (fst (writeModules r od t fs0)) = c"
  using dirWrite_loop_read [OF assms, of "(fs0, {})"]
  by (simp add: writeModules_eq Let_def)

lemma writeModules_keys_upper:
  "set (map fst (files (fst (writeModules r od t fs0))))
     \<subseteq> set (map fst (files fs0)) \<union> set (map fst (renderedAll r od t))"
  using dirWrite_loop_keys_upper [of "renderedAll r od t" "(fs0, {})"]
  by (simp add: writeModules_eq Let_def del: set_map)

lemma writeModules_noop:
  assumes "\<And>d c. (d, c) \<in> set (renderedAll r od t) \<Longrightarrow> readFileOrEmpty d fs = c"
    and "exists_path (path_join od ''syntax'') fs"
  shows "writeModules r od t fs = (fs, set (map fst (renderedAll r od t)))"
proof -
  have "dirWrite_loop (renderedAll r od t) (fs, {}) = (fs, set (map fst (renderedAll r od t)))"
    using dirWrite_loop_noop [of "renderedAll r od t" "(fs, {})"] assms(1) by simp
  with assms(2) show ?thesis by (simp add: writeModules_eq Let_def)
qed

text \<open>
  Claim C3, as the code has it. Let a run succeed, with output paths that are pairwise
  distinct and no regular file in the place of the \<open>syntax\<close> directory. A second run with
  the same collaborators and parameters then succeeds too; it leaves every file and
  directory as the first run left them, deletes nothing, and makes exactly one mutating
  call: it writes \<open>config.json\<close> again, with the same contents.
\<close>

theorem second_run_rewrites_only_config:
  assumes gen: "generate env = Inr (dir, merged)"
    and run1: "generateQB env ps fs0 = (None, fs1)"
    and dist: "distinct (outputPaths (render env dir merged) (regex env) (syntaxFiles env)
                  (outputDir ps) (target ps))"
    and nofile: "path_join (outputDir ps) ''syntax'' \<notin> set (map fst (files fs0))"
  shows "generateQB env ps fs1 =
           (None, fs1\<lparr>trace := trace fs1 @
               [WriteFile (path_join (outputDir ps) ''config.json'') (configContents (target ps))]\<rparr>)"
proof -
  define r where "r = render env dir merged"
  define rx where "rx = regex env"
  define sfs where "sfs = syntaxFiles env"
  define od where "od = outputDir ps"
  define t where "t = target ps"
  define rend where "rend = renderedAll r od t"
  define syn where "syn = syntaxOutputs rx t od (selectedSyntax t sfs)"
  define cp where "cp = path_join od ''config.json''"
  define sod where "sod = path_join od ''syntax''"
  define cfg where "cfg = configContents t"
  define stM where "stM = writeModules r od t fs0"
  define stS where "stS = dirWrite_loop syn stM"
  define fsW where "fsW = writeFile cp cfg (fst stS)"
  define w where "w = insert cp (snd stS)"
  define init where "init = js_set (walk od fs0)"
  note defs = r_def rx_def sfs_def od_def t_def

  have sync: "generateQB env ps fs = synchronize r rx sfs od t fs" for fs
    using gen by (simp add: generateQB_def defs)

  \<comment> \<open>the first run\<close>
  have ok: "list_all (\<lambda>(n, c). \<not> includes_str c disallowedImport) (selectedSyntax t sfs)"
  proof (cases rule: writeOutput_cases [of t sfs])
    case ok
    then show ?thesis .
  next
    case (bad pre bn bc post)
    from writeOutput_bad [OF bad, of r rx od fs0] run1 show ?thesis
      by (simp add: sync synchronize_eq split: prod.splits)
  qed
  have wo: "writeOutput r rx sfs od t fs = (None, writeConfig od t
        (dirWrite_loop syn (writeModules r od t fs)))" for fs
    unfolding syn_def by (rule writeOutput_ok [OF ok])
  have wc: "writeConfig od t stS = (fsW, w)"
    by (simp add: writeConfig_def Let_def fsW_def w_def cp_def cfg_def split: prod.splits)
  have fs1: "fs1 = deleteVestigial init w fsW"
    using run1 by (simp add: sync synchronize_eq wo stM_def [symmetric] stS_def [symmetric] wc init_def)

  have paths: "distinct (map fst rend @ map fst syn @ [cp])"
    using dist by (simp add: outputPaths_def defs rend_def syn_def cp_def)
  then have d_rend: "distinct (map fst rend)" and d_syn: "distinct (map fst syn)"
    and disj: "set (map fst rend) \<inter> set (map fst syn) = {}"
    and cp_rend: "cp \<notin> set (map fst rend)" and cp_syn: "cp \<notin> set (map fst syn)"
    by auto
  have w_eq: "w = insert cp (set (map fst rend) \<union> set (map fst syn))"
    by (simp add: w_def stS_def stM_def dirWrite_loop_written writeModules_written rend_def)

  \<comment> \<open>every output file holds its contents after the first run\<close>
  have readS: "readFileOrEmpty d (fst stS) = c" if "(d, c) \<in> set rend \<union> set syn" for d c
  proof (cases "(d, c) \<in> set syn")
    case True
    then show ?thesis unfolding stS_def by (rule dirWrite_loop_read [OF d_syn])
  next
    case False
    with that have dr: "(d, c) \<in> set rend" by simp
    then have "d \<in> set (map fst rend)" by force
    with disj have "d \<notin> set (map fst syn)" by blast
    then have "readFileOrEmpty d (fst stS) = readFileOrEmpty d (fst stM)"
      unfolding stS_def by (rule dirWrite_loop_read_other)
    also have "\<dots> = c"
      unfolding stM_def using d_rend dr unfolding rend_def by (rule writeModules_read)
    finally show ?thesis .
  qed
  have read1: "readFileOrEmpty d fs1 = c" if dc: "(d, c) \<in> set rend \<union> set syn" for d c
  proof -
    from dc have dm: "d \<in> set (map fst rend) \<union> set (map fst syn)" by force
    with cp_rend cp_syn have ne: "d \<noteq> cp" by blast
    from dm have dw: "d \<in> w" by (simp add: w_eq)
    have "map_of (files fs1) d = map_of (files fsW) d"
      using dw by (simp add: fs1 deleteVestigial_map_of)
    then have "readFileOrEmpty d fs1 = readFileOrEmpty d fsW" by (rule readFileOrEmpty_cong)
    also have "\<dots> = readFileOrEmpty d (fst stS)"
      using ne by (simp add: fsW_def readFileOrEmpty_writeFile)
    also have "\<dots> = c" using dc by (rule readS)
    finally show ?thesis .
  qed
  have cfg1: "map_of (files fs1) cp = Some cfg"
    by (simp add: fs1 deleteVestigial_map_of w_def fsW_def map_of_writeFile)

  \<comment> \<open>the files left under the output directory were all written\<close>
  have keysW: "set (map fst (files fsW)) \<subseteq> set (map fst (files fs0)) \<union> w"
  proof -
    have "set (map fst (files (fst stS))) \<subseteq> set (map fst (files (fst stM))) \<union> set (map fst syn)"
      unfolding stS_def by (rule dirWrite_loop_keys_upper)
    moreover have "set (map fst (files (fst stM))) \<subseteq> set (map fst (files fs0)) \<union> set (map fst rend)"
      unfolding stM_def rend_def by (rule writeModules_keys_upper)
    moreover have "set (map fst (files fsW)) = insert cp (set (map fst (files (fst stS))))"
      unfolding fsW_def by (rule keys_writeFile)
    ultimately show ?thesis unfolding w_eq by blast
  qed
  have kept: "p \<in> set (map fst (files fs1))" if "p \<in> set (map fst (files fsW))" and "p \<in> w" for p
    using that unfolding key_iff by (simp add: fs1 deleteVestigial_map_of)
  have left: "set (walk od fs1) \<subseteq> w"
  proof
    fix p assume "p \<in> set (walk od fs1)"
    then have sw: "startsWith p (od @ ''/'')" and "p \<in> set (map fst (files fs1))"
      unfolding walk_iff by blast+
    then have k1: "map_of (files fs1) p \<noteq> None" unfolding key_iff by blast
    from k1 have nd: "\<not> (p \<in> set init \<and> p \<notin> w)" and kW: "map_of (files fsW) p \<noteq> None"
      by (auto simp: fs1 deleteVestigial_map_of split: if_splits)
    show "p \<in> w"
    proof (rule ccontr)
      assume nw: "p \<notin> w"
      with nd have "p \<notin> set (walk od fs0)" by (simp add: init_def)
      with sw have "p \<notin> set (map fst (files fs0))" unfolding walk_iff by blast
      moreover from kW have "p \<in> set (map fst (files fsW))" unfolding key_iff .
      ultimately show False using keysW nw by blast
    qed
  qed

  \<comment> \<open>the syntax directory is still there\<close>
  have ex1: "exists_path sod fs1"
  proof -
    from writeModules_dirs_or_rendered [OF nofile [folded od_def], of r t]
    consider "sod \<in> set (dirs (fst stM))" | "sod \<in> set (map fst rend)"
      by (auto simp: sod_def stM_def rend_def)
    then show ?thesis
    proof cases
      case 1
      then have "sod \<in> set (dirs fs1)" by (simp add: fs1 fsW_def stS_def)
      then show ?thesis by (simp add: exists_path_def)
    next
      case 2
      then obtain c where "(sod, c) \<in> set rend" by auto
      then have "readFileOrEmpty sod (fst stM) = c"
        unfolding stM_def rend_def by (rule writeModules_read [OF d_rend [unfolded rend_def]])
      from 2 have sw: "sod \<in> w" by (simp add: w_eq)
      from writeModules_exists [of od r t fs0]
      have "sod \<in> set (dirs (fst stM)) \<or> sod \<in> set (map fst (files (fst stM)))"
        by (simp add: exists_path_def sod_def stM_def)
      then show ?thesis
      proof
        assume "sod \<in> set (dirs (fst stM))"
        then have "sod \<in> set (dirs fs1)" by (simp add: fs1 fsW_def stS_def)
        then show ?thesis by (simp add: exists_path_def)
      next
        assume "sod \<in> set (map fst (files (fst stM)))"
        with dirWrite_loop_keys_mono [of stM syn] have "sod \<in> set (map fst (files (fst stS)))"
          unfolding stS_def by blast
        then have "sod \<in> set (map fst (files fsW))"
          unfolding fsW_def keys_writeFile by simp
        from kept [OF this sw] show ?thesis by (simp add: exists_path_def)
      qed
    qed
  qed

  \<comment> \<open>the second run\<close>
  have m2: "writeModules r od t fs1 = (fs1, set (map fst rend))"
    unfolding rend_def
  proof (rule writeModules_noop)
    fix d c assume "(d, c) \<in> set (renderedAll r od t)"
    then show "readFileOrEmpty d fs1 = c" using read1 [of d c] by (simp add: rend_def)
  next
    show "exists_path (path_join od ''syntax'') fs1" using ex1 by (simp add: sod_def)
  qed
  have s2: "dirWrite_loop syn (fs1, set (map fst rend)) =
      (fs1, set (map fst rend) \<union> set (map fst syn))"
    using dirWrite_loop_noop [of syn "(fs1, set (map fst rend))"] read1 by simp
  have c2: "writeConfig od t (fs1, set (map fst rend) \<union> set (map fst syn)) =
      (fs1\<lparr>trace := trace fs1 @ [WriteFile cp cfg]\<rparr>, w)"
    using writeFile_same [OF cfg1]
    by (simp add: writeConfig_def Let_def cp_def [symmetric] cfg_def [symmetric] w_eq)
  have wo2: "writeOutput r rx sfs od t fs1 = (None, fs1\<lparr>trace := trace fs1 @ [WriteFile cp cfg]\<rparr>, w)"
    unfolding wo m2 s2 c2 ..
  have "set (js_set (walk od fs1)) \<subseteq> w" using left by simp
  then have "deleteVestigial (js_set (walk od fs1)) w (fs1\<lparr>trace := trace fs1 @ [WriteFile cp cfg]\<rparr>)
      = fs1\<lparr>trace := trace fs1 @ [WriteFile cp cfg]\<rparr>"
    by (rule deleteVestigial_none)
  with wo2 have "synchronize r rx sfs od t fs1 = (None, fs1\<lparr>trace := trace fs1 @ [WriteFile cp cfg]\<rparr>)"
    by (simp add: synchronize_eq)
  then show ?thesis by (simp add: sync cp_def cfg_def od_def t_def)
qed

lemmas sync_defs =
  generateQB_def generate_def synchronize_def writeOutput_def writeModules_def writePasses_def
  dirWrite_def syncFile_def writeConfig_def readFileOrEmpty_def writeFile_def mkdir_def rm_def
  exists_path_def walk_def js_set_def path_join_def filetype_def skipSyntaxFile_def endsWith_def
  startsWith_def rewriteContents_def localExt_def pkgExt_def disallowedImport_def
  selectedSyntax_def syntaxOutputs_def renderedAll_def outputPaths_def Let_def

lemmas run_defs =
  exampleEnv_def brokenEnv_def exampleRegex_def exampleRender_def goodSyntax_def badSyntax_def
  unselectedSyntax_def qbTs_def qbEsm_def fsStale_def fsAfter_def fsAfterEsm_def fsHalted_def
  indexContents_def

lemma example_generate:
  "generate (exampleEnv sfs) = Inr (snd (spreadModules exampleIdent dirUser), userSurface)"
  using user_run by (simp add: generate_def exampleEnv_def surfaceMerger_def)

lemma example_render:
  "render (exampleEnv sfs) d userSurface = exampleRender d userSurface"
  by (simp add: exampleEnv_def)

lemma good_run: "generateQB (exampleEnv goodSyntax) qbTs fsStale = (None, fsAfter)"
  unfolding generateQB_def example_generate
  by (simp add: sync_defs run_defs userSurface_def)

lemma esm_run: "generateQB (exampleEnv goodSyntax) qbEsm fsStale = (None, fsAfterEsm)"
  unfolding generateQB_def example_generate
  by (simp add: sync_defs run_defs userSurface_def)

lemma halted_run: "generateQB (exampleEnv badSyntax) qbTs fsStale = (Some NoDirectoryImports, fsHalted)"
  unfolding generateQB_def example_generate
  by (simp add: sync_defs run_defs userSurface_def)

lemma unselected_run: "generateQB (exampleEnv unselectedSyntax) qbTs fsStale = (None, fsAfter)"
  unfolding generateQB_def example_generate
  by (simp add: sync_defs run_defs userSurface_def)

text \<open>
  Claim C3 as stated fails: the second of two identical runs does write a file. The
  generated modules and the syntax files are compared first, \<open>config.json\<close> is not.
\<close>

theorem second_run_counterexample:
  "generateQB (exampleEnv goodSyntax) qbTs fsStale = (None, fsAfter)
   \<and> trace (snd (generateQB (exampleEnv goodSyntax) qbTs (fsAfter\<lparr>trace := []\<rparr>))) =
       [WriteFile ''qb/config.json'' (configContents Ts)]"
proof -
  have "generateQB (exampleEnv goodSyntax) qbTs (fsAfter\<lparr>trace := []\<rparr>) =
     (None, fsAfter\<lparr>trace := [WriteFile ''qb/config.json'' (configContents Ts)]\<rparr>)"
    unfolding generateQB_def example_generate
    by (simp add: sync_defs run_defs userSurface_def)
  with good_run show ?thesis by simp
qed

text \<open>
  The run into \<open>qb\<close>, repeated on the directory it has left.
\<close>

theorem second_run_rewrites_only_config_witness:
  "generate (exampleEnv goodSyntax) = Inr (snd (spreadModules exampleIdent dirUser), userSurface)
   \<and> generateQB (exampleEnv goodSyntax) qbTs fsStale = (None, fsAfter)
   \<and> distinct (outputPaths (exampleRender (snd (spreadModules exampleIdent dirUser)) userSurface)
        exampleRegex goodSyntax ''qb'' Ts)
   \<and> ''qb/syntax'' \<notin> set (map fst (files fsStale))
   \<and> generateQB (exampleEnv goodSyntax) qbTs fsAfter =
       (None, fsAfter\<lparr>trace := trace fsAfter @ [WriteFile ''qb/config.json'' (configContents Ts)]\<rparr>)"
proof -
  have d: "distinct (outputPaths (render (exampleEnv goodSyntax) (snd (spreadModules exampleIdent dirUser)) userSurface)
        (regex (exampleEnv goodSyntax)) (syntaxFiles (exampleEnv goodSyntax)) (outputDir qbTs) (target qbTs))"
    by (simp add: sync_defs run_defs)
  have n: "path_join (outputDir qbTs) ''syntax'' \<notin> set (map fst (files fsStale))"
    by (simp add: sync_defs run_defs)
  from second_run_rewrites_only_config [OF example_generate good_run d n] d n
    example_generate [of goodSyntax] good_run
  show ?thesis by (simp add: exampleEnv_def qbTs_def path_join_def)
qed

text \<open>
  Claim C4 as stated fails twice. When the run halts at \<open>path.ts\<close>, the index file has
  been written, the \<open>syntax\<close> directory made and \<open>select.ts\<close> copied. And a file with the
  same import that the target does not select, \<open>path.mjs\<close>, does not halt the run.
\<close>

theorem disallowed_import_halts_counterexample:
  \<open>includes_str ''import {$} from "edgedb/dist/reflection";'' disallowedImport
   \<and> generateQB (exampleEnv badSyntax) qbTs fsStale = (Some NoDirectoryImports, fsHalted)
   \<and> trace fsHalted = [WriteFile ''qb/index.ts'' indexContents, Mkdir ''qb/syntax'',
                       WriteFile ''qb/syntax/select.ts'' ''export const ASC = "ASC";'']
   \<and> generateQB (exampleEnv unselectedSyntax) qbTs fsStale = (None, fsAfter)\<close>
  using halted_run unselected_run
  by (simp add: fsHalted_def disallowedImport_def startsWith_def)

text \<open>
  The run into \<open>qb\<close> with the offending file \<open>path.ts\<close> after \<open>select.ts\<close>.
\<close>

theorem disallowed_import_halts_witness:
  \<open>generate (exampleEnv badSyntax) = Inr (snd (spreadModules exampleIdent dirUser), userSurface)
   \<and> selectedSyntax (target qbTs) (syntaxFiles (exampleEnv badSyntax)) =
       [(''select.ts'', ''export const ASC = "ASC";'')] @
       (''path.ts'', ''import {$} from "edgedb/dist/reflection";'') # []
   \<and> includes_str ''import {$} from "edgedb/dist/reflection";'' disallowedImport
   \<and> \<not> includes_str ''export const ASC = "ASC";'' disallowedImport
   \<and> generateQB (exampleEnv badSyntax) qbTs fsStale = (Some NoDirectoryImports, fsHalted)
   \<and> trace fsHalted = trace fsStale @
       [WriteFile ''qb/index.ts'' indexContents, Mkdir ''qb/syntax'',
        WriteFile ''qb/syntax/select.ts'' ''export const ASC = "ASC";'']\<close>
proof -
  have s: \<open>selectedSyntax (target qbTs) (syntaxFiles (exampleEnv badSyntax)) =
       [(''select.ts'', ''export const ASC = "ASC";'')] @
       (''path.ts'', ''import {$} from "edgedb/dist/reflection";'') # []\<close>
    by (simp add: sync_defs run_defs)
  have b: \<open>includes_str ''import {$} from "edgedb/dist/reflection";'' disallowedImport\<close>
    by (simp add: disallowedImport_def startsWith_def)
  have g: \<open>\<not> includes_str ''export const ASC = "ASC";'' disallowedImport\<close>
    by (simp add: disallowedImport_def startsWith_def)
  then have p: \<open>list_all (\<lambda>(fileName, contents). \<not> includes_str contents disallowedImport)
      [(''select.ts'', ''export const ASC = "ASC";'')]\<close> by simp
  from disallowed_import_halts [OF example_generate s p b, of fsStale] halted_run
    example_generate [of badSyntax] s b g
  show ?thesis by (simp add: fsHalted_def fsStale_def)
qed

text \<open>
  A run that deletes the stale file \<open>qb/old.ts\<close>, and two runs that fail (at a syntax
  file, and at the introspection) and delete nothing.
\<close>

theorem vestigial_files_deleted_witness:
  "generateQB (exampleEnv goodSyntax) qbTs fsStale = (None, fsAfter)
   \<and> walk (outputDir qbTs) fsStale = [''qb/old.ts'']
   \<and> trace fsAfter = [WriteFile ''qb/index.ts'' indexContents, Mkdir ''qb/syntax'',
                      WriteFile ''qb/syntax/select.ts'' (snd (hd goodSyntax)),
                      WriteFile ''qb/config.json'' (configContents Ts), Rm ''qb/old.ts'']
   \<and> generateQB (exampleEnv badSyntax) qbTs fsStale = (Some NoDirectoryImports, fsHalted)
   \<and> list_all (\<lambda>op. \<not> isRm op) (trace fsHalted)
   \<and> generateQB brokenEnv qbTs fsStale = (Some (IntrospectionFailed ''connection lost''), fsStale)"
proof -
  have w: "walk (outputDir qbTs) fsStale = [''qb/old.ts'']"
    by (simp add: sync_defs run_defs)
  have b: "generateQB brokenEnv qbTs fsStale = (Some (IntrospectionFailed ''connection lost''), fsStale)"
    by (simp add: generateQB_def generate_def brokenEnv_def exampleEnv_def)
  from vestigial_files_deleted [of "exampleEnv goodSyntax" qbTs fsStale]
    vestigial_files_deleted [of "exampleEnv badSyntax" qbTs fsStale]
    vestigial_files_deleted [of brokenEnv qbTs fsStale]
    good_run halted_run w b
  show ?thesis by (simp add: fsAfter_def fsHalted_def goodSyntax_def)
qed

text \<open>
  The run into \<open>qb\<close> for the target \<open>ts\<close>, and the same run for the target \<open>esm\<close>.
\<close>

theorem config_written_last_witness:
  \<open>generateQB (exampleEnv goodSyntax) qbTs fsStale = (None, fsAfter)
   \<and> map_of (files fsAfter) ''qb/config.json'' =
       Some ''// EdgeDB query builder. To update, run `npx edgeql-js`\<newline>{"target":"ts"}\<newline>''
   \<and> trace fsAfter = [WriteFile ''qb/index.ts'' indexContents, Mkdir ''qb/syntax'',
                      WriteFile ''qb/syntax/select.ts'' (snd (hd goodSyntax)),
                      WriteFile ''qb/config.json'' (configContents Ts)]
                     @ map Rm [''qb/old.ts'']
   \<and> generateQB (exampleEnv goodSyntax) qbEsm fsStale = (None, fsAfterEsm)
   \<and> map_of (files fsAfterEsm) ''qb/config.json'' =
       Some ''// EdgeDB query builder. To update, run `npx edgeql-js`\<newline>{"target":"esm"}\<newline>''
   \<and> trace fsAfterEsm = [WriteFile ''qb/index.mjs'' indexContents,
                         WriteFile ''qb/index.d.ts'' indexContents, Mkdir ''qb/syntax'',
                         WriteFile ''qb/config.json'' (configContents Esm)]
                        @ map Rm [''qb/old.ts'']\<close>
  using config_written_last [OF good_run] config_written_last [OF esm_run] good_run esm_run
  by (simp add: fsAfter_def fsAfterEsm_def goodSyntax_def configContents_def stringifyTarget_def
      configFileHeader_def targetName_def)

end
